theory Spec2Isabelle
  imports Complex_Main "HOL-Library.Word"
begin

unbundle bit_operations_syntax

section \<open>Machine types shared by all source files\<close>

type_synonym u8 = "8 word"
type_synonym u16 = "16 word"

text \<open>
  The repository holds four implementations of the same image tool:
  \<^item> \<^verbatim>\<open>src/project2.cpp\<close> (functions \<^verbatim>\<open>readTGA\<close>, \<^verbatim>\<open>writeTGA\<close>, \<^verbatim>\<open>blend\<close>,
    \<^verbatim>\<open>combineRGB\<close>, \<^verbatim>\<open>rot180\<close>);
  \<^item> \<^verbatim>\<open>src/unnamed/part_000\<close> lines 1-514, the multi-command tool with lookup tables
    (\<^verbatim>\<open>TGA::load\<close>, \<^verbatim>\<open>TGA::save\<close>, \<^verbatim>\<open>Blend::apply\<close>, \<^verbatim>\<open>combineRGB\<close>,
    \<^verbatim>\<open>rotate180\<close>);
  \<^item> \<^verbatim>\<open>src/unnamed/part_000\<close> lines 515-911, an integer variant of the same tool (suffix
    \<open>_v2\<close> below);
  \<^item> \<^verbatim>\<open>src/unnamed/part_000\<close> lines 912-1284, a floating-point variant (suffix \<open>_v3\<close>).
  Names without a suffix are those of the first two; where the two clash, the name of
  project2.cpp carries the prefix \<open>p2_\<close> or \<open>P2\<close> (\<open>p2_combineRGB\<close>, \<open>P2Mode\<close>,
  \<open>P2_SCREEN\<close>, \<open>P2_OVERLAY\<close>), and the header's extents are \<open>hwidth\<close> and \<open>hheight\<close>
  beside the image's \<open>width\<close> and \<open>height\<close>.

  C++ integer division truncates toward zero; \<open>div\<close> on \<open>int\<close> rounds down.
\<close>

definition cdiv :: "int \<Rightarrow> int \<Rightarrow> int" where
  "cdiv x y = sgn x * sgn y * (\<bar>x\<bar> div \<bar>y\<bar>)"

text \<open>
  Every \<^verbatim>\<open>throw\<close> of part_000 and every \<^verbatim>\<open>exit(n)\<close> of project2.cpp is an error value.
  \<open>UndefinedBehaviour\<close> stands for the executions the C++ standard leaves undefined: a
  signed \<^verbatim>\<open>int\<close> product that overflows and a read past the end of a vector.
  \<open>ResizeThrows\<close> is the \<^verbatim>\<open>std::length_error\<close> of \<^verbatim>\<open>vector::resize\<close>.
\<close>

datatype error =
    CantOpen
  | OnlyUnmapped
  | NeedUncompressed
  | Need24Bit
  | TruncatedPixelData
  | CantWrite
  | WriteFailed
  | BlendSizeMismatch
  | CombineSizeMismatch
  | Exit nat
  | ResizeThrows
  | UndefinedBehaviour

section \<open>part\_000, lines 1-514: image container and blend operations\<close>

record Image =
  width :: u16
  height :: u16
  pixels :: "u8 list"

text \<open>
  \<^verbatim>\<open>img.width * img.height\<close> multiplies two \<^verbatim>\<open>uint16_t\<close> values after promotion to a
  32-bit \<^verbatim>\<open>int\<close>; a product above \<^verbatim>\<open>INT_MAX\<close> is undefined.
\<close>

definition int_mul_u16 :: "u16 \<Rightarrow> u16 \<Rightarrow> nat option" where
  "int_mul_u16 w y = (if unat w * unat y < 2 ^ 31 then Some (unat w * unat y) else None)"

datatype Mode = ADD | SUBTRACT | MULTIPLY | SCREEN | OVERLAY

definition mul255_round :: "int \<Rightarrow> int \<Rightarrow> u8" where
  "mul255_round x y = word_of_int (cdiv (x * y + 127) 255)"

definition scr255_round :: "int \<Rightarrow> int \<Rightarrow> u8" where
  "scr255_round x y = word_of_int (255 - cdiv ((255 - x) * (255 - y) + 127) 255)"

text \<open>
  \<^verbatim>\<open>init_luts\<close> fills both tables for all index pairs before the first lookup (static
  bootstrap object, and the guard at the head of \<^verbatim>\<open>blendPixel\<close>), so a lookup is the
  tabulated function.
\<close>

definition multiply_lut :: "u8 \<Rightarrow> u8 \<Rightarrow> u8" where
  "multiply_lut x y = mul255_round (uint x) (uint y)"

definition screen_lut :: "u8 \<Rightarrow> u8 \<Rightarrow> u8" where
  "screen_lut x y = scr255_round (uint x) (uint y)"

text \<open>The body of the channel loop of \<^verbatim>\<open>Blend::blendPixel\<close>, for one channel.\<close>

fun blendSample :: "Mode \<Rightarrow> u8 \<Rightarrow> u8 \<Rightarrow> u8" where
  "blendSample ADD x y =
     (let s = uint x + uint y in word_of_int (if s > 255 then 255 else s))"
| "blendSample SUBTRACT x y = (if x > y then word_of_int (uint x - uint y) else 0)"
| "blendSample MULTIPLY x y = multiply_lut x y"
| "blendSample SCREEN x y = screen_lut x y"
| "blendSample OVERLAY x y =
     (let A = uint x; B = uint y;
          low = uint (mul255_round (2 * A) B);
          high = 255 - uint (mul255_round (2 * (255 - A)) (255 - B))
      in word_of_int (if A < 128 then low else high))"

definition blendPixel :: "Mode \<Rightarrow> u8 list \<Rightarrow> u8 list \<Rightarrow> u8 list" where
  "blendPixel m xs ys = map (\<lambda>i. blendSample m (xs ! i) (ys ! i)) [0..<3]"

text \<open>
  The pixel loop of \<^verbatim>\<open>Blend::apply\<close>: the three pointers advance by one pixel per
  iteration.
\<close>

fun blend_loop :: "Mode \<Rightarrow> nat \<Rightarrow> u8 list \<Rightarrow> u8 list \<Rightarrow> u8 list" where
  "blend_loop m 0 bp tp = []"
| "blend_loop m (Suc n) bp tp = blendPixel m bp tp @ blend_loop m n (drop 3 bp) (drop 3 tp)"

definition Blend_apply :: "Image \<Rightarrow> Image \<Rightarrow> Mode \<Rightarrow> error + Image" where
  "Blend_apply base over m =
     (if width base \<noteq> width over \<or> height base \<noteq> height over then Inl BlendSizeMismatch
      else case int_mul_u16 (width base) (height base) of
        None \<Rightarrow> Inl UndefinedBehaviour
      | Some n \<Rightarrow>
          if length (pixels base) < 3 * n \<or> length (pixels over) < 3 * n
          then Inl UndefinedBehaviour
          else Inr \<lparr>width = width base, height = height base,
                    pixels = blend_loop m n (pixels base) (pixels over)\<rparr>)"

section \<open>project2.cpp: header, pixels and blend\<close>

text \<open>
  The packed 18-byte header. project2.cpp declares the byte fields \<^verbatim>\<open>char\<close> and the
  two-byte fields \<^verbatim>\<open>short\<close>, part_000 declares them \<^verbatim>\<open>uint8_t\<close> and \<^verbatim>\<open>uint16_t\<close>;
  the record holds the bits, and a definition reads them signed (\<open>sint\<close>) where the
  source does.
\<close>

record Header =
  idLength :: u8
  colorMapType :: u8
  dataTypeCode :: u8
  colorMapOrigin :: u16
  colorMapLength :: u16
  colorMapDepth :: u8
  xOrigin :: u16
  yOrigin :: u16
  hwidth :: u16
  hheight :: u16
  bitsPerPixel :: u8
  imageDescriptor :: u8

record Pixel =
  b :: u8
  g :: u8
  r :: u8

record Img =
  h :: Header
  px :: "Pixel list"

definition CLAMP :: "int \<Rightarrow> int" where
  "CLAMP v = (if v < 0 then 0 else if v > 255 then 255 else v)"

definition c255 :: "int \<Rightarrow> u8" where
  "c255 v = word_of_int (CLAMP v)"

datatype P2Mode = MULTI | SUBTR | P2_SCREEN | P2_OVERLAY

text \<open>The lambdas \<^verbatim>\<open>S\<close> and \<^verbatim>\<open>O\<close> of \<^verbatim>\<open>blend\<close>.\<close>

definition blend_S :: "int \<Rightarrow> int \<Rightarrow> int" where
  "blend_S x y = 255 - cdiv ((255 - x) * (255 - y)) 255"

definition blend_O :: "int \<Rightarrow> int \<Rightarrow> int" where
  "blend_O x y =
     (if y < 128 then cdiv (2 * x * y) 255 else 255 - cdiv (2 * (255 - x) * (255 - y)) 255)"

text \<open>The \<^verbatim>\<open>switch\<close> of \<^verbatim>\<open>blend\<close>: \<open>A\<close> is the top pixel, \<open>B\<close> the bottom pixel.\<close>

fun blend_switch :: "P2Mode \<Rightarrow> Pixel \<Rightarrow> Pixel \<Rightarrow> Pixel" where
  "blend_switch MULTI A B =
     \<lparr>b = c255 (cdiv (uint (b A) * uint (b B)) 255),
      g = c255 (cdiv (uint (g A) * uint (g B)) 255),
      r = c255 (cdiv (uint (r A) * uint (r B)) 255)\<rparr>"
| "blend_switch SUBTR A B =
     \<lparr>b = c255 (uint (b B) - uint (b A)),
      g = c255 (uint (g B) - uint (g A)),
      r = c255 (uint (r B) - uint (r A))\<rparr>"
| "blend_switch P2_SCREEN A B =
     \<lparr>b = c255 (blend_S (uint (b A)) (uint (b B))),
      g = c255 (blend_S (uint (g A)) (uint (g B))),
      r = c255 (blend_S (uint (r A)) (uint (r B)))\<rparr>"
| "blend_switch P2_OVERLAY A B =
     \<lparr>b = c255 (blend_O (uint (b A)) (uint (b B))),
      g = c255 (blend_O (uint (g A)) (uint (g B))),
      r = c255 (blend_O (uint (r A)) (uint (r B)))\<rparr>"

text \<open>
  \<^verbatim>\<open>blend(top, bottom, m)\<close>: the output is a copy of \<open>top\<close> whose pixel \<open>i\<close> is the
  blended one, for every index of \<open>top.px\<close>; \<open>bottom.px[i]\<close> past the end of
  \<open>bottom.px\<close> is undefined.
\<close>

definition blend :: "Img \<Rightarrow> Img \<Rightarrow> P2Mode \<Rightarrow> error + Img" where
  "blend tp bt m =
     (if hwidth (h tp) \<noteq> hwidth (h bt) \<or> hheight (h tp) \<noteq> hheight (h bt) then Inl (Exit 42)
      else if length (px bt) < length (px tp) then Inl UndefinedBehaviour
      else Inr (tp\<lparr>px := map (\<lambda>i. blend_switch m (px tp ! i) (px bt ! i))
                              [0..<length (px tp)]\<rparr>))"

text \<open>A header as \<^verbatim>\<open>TGA::save\<close> fills it, for the concrete images used below.\<close>

definition mkHeader :: "u16 \<Rightarrow> u16 \<Rightarrow> u8 \<Rightarrow> Header" where
  "mkHeader w y d =
     \<lparr>idLength = 0, colorMapType = 0, dataTypeCode = 2, colorMapOrigin = 0,
      colorMapLength = 0, colorMapDepth = 0, xOrigin = 0, yOrigin = 0,
      hwidth = w, hheight = y, bitsPerPixel = 24, imageDescriptor = d\<rparr>"

definition gray1x1 :: "u8 \<Rightarrow> Img" where
  "gray1x1 v = \<lparr>h = mkHeader 1 1 0, px = [\<lparr>b = v, g = v, r = v\<rparr>]\<rparr>"

section \<open>The header on disk\<close>

text \<open>
  Both programs read and write the header as the memory image of the packed struct. The
  two-byte fields are little-endian (the layout of the hosts the programs are built for,
  and the one the file format fixes).
\<close>

definition lo8 :: "u16 \<Rightarrow> u8" where
  "lo8 w = ucast w"

definition hi8 :: "u16 \<Rightarrow> u8" where
  "hi8 w = ucast (drop_bit 8 w)"

definition le16 :: "u8 \<Rightarrow> u8 \<Rightarrow> u16" where
  "le16 l u = ucast l OR push_bit 8 (ucast u)"

definition header_bytes :: "Header \<Rightarrow> u8 list" where
  "header_bytes hdr =
     [idLength hdr, colorMapType hdr, dataTypeCode hdr,
      lo8 (colorMapOrigin hdr), hi8 (colorMapOrigin hdr),
      lo8 (colorMapLength hdr), hi8 (colorMapLength hdr),
      colorMapDepth hdr,
      lo8 (xOrigin hdr), hi8 (xOrigin hdr), lo8 (yOrigin hdr), hi8 (yOrigin hdr),
      lo8 (hwidth hdr), hi8 (hwidth hdr), lo8 (hheight hdr), hi8 (hheight hdr),
      bitsPerPixel hdr, imageDescriptor hdr]"

definition parse_header :: "u8 list \<Rightarrow> Header" where
  "parse_header bs =
     \<lparr>idLength = bs ! 0, colorMapType = bs ! 1, dataTypeCode = bs ! 2,
      colorMapOrigin = le16 (bs ! 3) (bs ! 4), colorMapLength = le16 (bs ! 5) (bs ! 6),
      colorMapDepth = bs ! 7,
      xOrigin = le16 (bs ! 8) (bs ! 9), yOrigin = le16 (bs ! 10) (bs ! 11),
      hwidth = le16 (bs ! 12) (bs ! 13), hheight = le16 (bs ! 14) (bs ! 15),
      bitsPerPixel = bs ! 16, imageDescriptor = bs ! 17\<rparr>"

text \<open>
  \<^verbatim>\<open>file.read(&hdr, sizeof(hdr))\<close> into a zero-initialised header: the bytes the file
  has, up to 18, over zeros; the stream stays good only if all 18 were there.
\<close>

definition read_header :: "u8 list \<Rightarrow> Header \<times> bool" where
  "read_header f =
     (parse_header (take 18 f @ replicate (18 - length f) 0), 18 \<le> length f)"

text \<open>
  What opening the destination gives: the open fails, or a later write fails, or the
  stream takes every byte.
\<close>

datatype ofstream = OpenFails | WriteFails | StreamGood

section \<open>part\_000, lines 1-514: codec, combine and rotate\<close>

text \<open>
  The \<^verbatim>\<open>memcpy\<close> loop of \<^verbatim>\<open>TGA::load\<close>: row \<open>y\<close> of the new buffer is row
  \<open>height - 1 - y\<close> of the old one.
\<close>

definition flip_rows :: "nat \<Rightarrow> nat \<Rightarrow> u8 list \<Rightarrow> u8 list" where
  "flip_rows hh rowBytes ps =
     concat (map (\<lambda>y. take rowBytes (drop ((hh - 1 - y) * rowBytes) ps)) [0..<hh])"

text \<open>The row loop of \<^verbatim>\<open>TGA::save\<close>: row \<open>y\<close> of the buffer is written as row \<open>y\<close>.\<close>

definition save_rows :: "nat \<Rightarrow> nat \<Rightarrow> u8 list \<Rightarrow> u8 list" where
  "save_rows hh rowBytes ps =
     concat (map (\<lambda>y. take rowBytes (drop (y * rowBytes) ps)) [0..<hh])"

text \<open>
  \<^verbatim>\<open>TGA::load\<close>. The argument is the file at the path: \<open>None\<close> when it cannot be opened,
  else its bytes.
\<close>

definition TGA_load :: "u8 list option \<Rightarrow> error + Image" where
  "TGA_load file =
     (case file of
        None \<Rightarrow> Inl CantOpen
      | Some f \<Rightarrow>
          let hdr = fst (read_header f); good = snd (read_header f) in
          if colorMapType hdr \<noteq> 0 then Inl OnlyUnmapped
          else if dataTypeCode hdr \<noteq> 2 then Inl NeedUncompressed
          else if bitsPerPixel hdr \<noteq> 24 then Inl Need24Bit
          else (case int_mul_u16 (hwidth hdr) (hheight hdr) of
            None \<Rightarrow> Inl UndefinedBehaviour
          | Some n \<Rightarrow>
              let payload = drop (18 + unat (idLength hdr)) f in
              if \<not> good \<or> length payload < 3 * n then Inl TruncatedPixelData
              else
                let ps = take (3 * n) payload in
                Inr \<lparr>width = hwidth hdr, height = hheight hdr,
                     pixels =
                       (if (imageDescriptor hdr AND 0x20) \<noteq> 0
                        then flip_rows (unat (hheight hdr)) (unat (hwidth hdr) * 3) ps
                        else ps)\<rparr>))"

text \<open>
  \<^verbatim>\<open>TGA::save\<close>. The result is the byte sequence written to the file. A row read past
  the end of \<open>img.pixels\<close> is undefined.
\<close>

definition TGA_save :: "ofstream \<Rightarrow> Image \<Rightarrow> error + u8 list" where
  "TGA_save out img =
     (if out = OpenFails then Inl CantWrite
      else if length (pixels img) < unat (height img) * (unat (width img) * 3)
      then Inl UndefinedBehaviour
      else if out = WriteFails then Inl WriteFailed
      else Inr (header_bytes (mkHeader (width img) (height img) 0x00)
                @ save_rows (unat (height img)) (unat (width img) * 3) (pixels img)))"

text \<open>
  \<^verbatim>\<open>combineRGB\<close> (lines 234-246): the loop index \<open>i\<close> steps by one pixel; \<open>k\<close> is the
  pixel number, \<open>i = 3 * k\<close>.
\<close>

definition combineRGB :: "Image \<Rightarrow> Image \<Rightarrow> Image \<Rightarrow> error + Image" where
  "combineRGB ri gi bi =
     (if width ri \<noteq> width gi \<or> width ri \<noteq> width bi
         \<or> height ri \<noteq> height gi \<or> height ri \<noteq> height bi
      then Inl CombineSizeMismatch
      else case int_mul_u16 (width ri) (height ri) of
        None \<Rightarrow> Inl UndefinedBehaviour
      | Some n \<Rightarrow>
          if 0 < n \<and> (length (pixels ri) \<le> 3 * (n - 1) \<or> length (pixels gi) \<le> 3 * (n - 1)
                       \<or> length (pixels bi) \<le> 3 * (n - 1))
          then Inl UndefinedBehaviour
          else Inr \<lparr>width = width ri, height = height ri,
                    pixels = concat (map (\<lambda>k. [pixels bi ! (3 * k), pixels gi ! (3 * k),
                                                 pixels ri ! (3 * k)]) [0..<n])\<rparr>)"

text \<open>
  \<^verbatim>\<open>rotate180\<close> (lines 248-260): the output has the size of \<open>src.pixels\<close>, zero-filled, and
  the loop sets its first \<open>width * height\<close> pixels.
\<close>

definition rotate_loop :: "nat \<Rightarrow> u8 list \<Rightarrow> u8 list" where
  "rotate_loop pix s =
     concat (map (\<lambda>p. let q = pix - 1 - p in
                        [s ! (q * 3 + 0), s ! (q * 3 + 1), s ! (q * 3 + 2)]) [0..<pix])"

definition rotate180 :: "Image \<Rightarrow> error + Image" where
  "rotate180 src =
     (case int_mul_u16 (width src) (height src) of
        None \<Rightarrow> Inl UndefinedBehaviour
      | Some pix \<Rightarrow>
          if length (pixels src) < 3 * pix then Inl UndefinedBehaviour
          else Inr \<lparr>width = width src, height = height src,
                    pixels = rotate_loop pix (pixels src)
                             @ replicate (length (pixels src) - 3 * pix) 0\<rparr>)"

text \<open>The invariant of the data model: three samples per pixel.\<close>

definition valid_image :: "Image \<Rightarrow> bool" where
  "valid_image img = (length (pixels img) = 3 * (unat (width img) * unat (height img)))"

section \<open>part\_000, lines 515-911 and 912-1284: the codecs of the two other variants\<close>

text \<open>\<^verbatim>\<open>TGA::load\<close> at lines 570-600: as above, without the colour-map test.\<close>

definition TGA_load_v2 :: "u8 list option \<Rightarrow> error + Image" where
  "TGA_load_v2 file =
     (case file of
        None \<Rightarrow> Inl CantOpen
      | Some f \<Rightarrow>
          let hdr = fst (read_header f); good = snd (read_header f) in
          if dataTypeCode hdr \<noteq> 2 then Inl NeedUncompressed
          else if bitsPerPixel hdr \<noteq> 24 then Inl Need24Bit
          else (case int_mul_u16 (hwidth hdr) (hheight hdr) of
            None \<Rightarrow> Inl UndefinedBehaviour
          | Some n \<Rightarrow>
              let payload = drop (18 + unat (idLength hdr)) f in
              if \<not> good \<or> length payload < 3 * n then Inl TruncatedPixelData
              else
                let ps = take (3 * n) payload in
                Inr \<lparr>width = hwidth hdr, height = hheight hdr,
                     pixels =
                       (if (imageDescriptor hdr AND 0x20) \<noteq> 0
                        then flip_rows (unat (hheight hdr)) (unat (hwidth hdr) * 3) ps
                        else ps)\<rparr>))"

text \<open>
  \<^verbatim>\<open>TGA::save\<close> at lines 602-621: the row written as row \<open>y\<close> is row
  \<open>height - 1 - y\<close> of the buffer; the descriptor is 0.
\<close>

definition TGA_save_v2 :: "ofstream \<Rightarrow> Image \<Rightarrow> error + u8 list" where
  "TGA_save_v2 out img =
     (if out = OpenFails then Inl CantWrite
      else if length (pixels img) < unat (height img) * (unat (width img) * 3)
      then Inl UndefinedBehaviour
      else if out = WriteFails then Inl WriteFailed
      else Inr (header_bytes (mkHeader (width img) (height img) 0x00)
                @ flip_rows (unat (height img)) (unat (width img) * 3) (pixels img)))"

text \<open>
  \<^verbatim>\<open>TGA::save\<close> at lines 1015-1034: the descriptor is 0x20 and the whole pixel vector is
  written in one block.
\<close>

definition TGA_save_v3 :: "ofstream \<Rightarrow> Image \<Rightarrow> error + u8 list" where
  "TGA_save_v3 out img =
     (if out = OpenFails then Inl CantWrite
      else if out = WriteFails then Inl WriteFailed
      else Inr (header_bytes (mkHeader (width img) (height img) 0x20) @ pixels img))"

section \<open>project2.cpp: codec, combine and rotate\<close>

text \<open>
  Plain \<^verbatim>\<open>char\<close> is taken as signed (the x86 and x86-64 ABIs), \<^verbatim>\<open>size_t\<close> as 64 bits.
\<close>

definition char_signed :: bool where
  "char_signed = True"

definition char_val :: "u8 \<Rightarrow> int" where
  "char_val c = (if char_signed then sint c else uint c)"

text \<open>The pixel vector as the bytes \<^verbatim>\<open>read\<close> and \<^verbatim>\<open>write\<close> move: b, g, r per pixel.\<close>

fun to_pixels :: "u8 list \<Rightarrow> Pixel list" where
  "to_pixels (x # y # z # rest) = \<lparr>b = x, g = y, r = z\<rparr> # to_pixels rest"
| "to_pixels rest = []"

fun from_pixels :: "Pixel list \<Rightarrow> u8 list" where
  "from_pixels [] = []"
| "from_pixels (p # ps) = b p # g p # r p # from_pixels ps"

text \<open>
  \<^verbatim>\<open>readTGA\<close>. \<open>count\<close> is the product of the two \<^verbatim>\<open>short\<close> extents converted to
  \<^verbatim>\<open>size_t\<close>; \<^verbatim>\<open>resize\<close> throws above \<^verbatim>\<open>max_size()\<close>. \<^verbatim>\<open>seekg\<close> moves by the
  \<^verbatim>\<open>char\<close> value of \<open>idLength\<close>, and fails the stream before the start of the file.
\<close>

definition readTGA :: "u8 list option \<Rightarrow> error + Img" where
  "readTGA file =
     (case file of
        None \<Rightarrow> Inl (Exit 1)
      | Some f \<Rightarrow>
          let hdr = fst (read_header f); good = snd (read_header f) in
          if \<not> good then Inl (Exit 2)
          else if bitsPerPixel hdr \<noteq> 24 \<or> dataTypeCode hdr \<noteq> 2 then Inl (Exit 3)
          else
            let count = nat ((sint (hwidth hdr) * sint (hheight hdr)) mod 2 ^ 64) in
            if count > (2 ^ 63 - 1) div 3 then Inl ResizeThrows
            else
              let pos = (if idLength hdr \<noteq> 0 then 18 + char_val (idLength hdr) else 18) in
              if pos < 0 \<or> length (drop (nat pos) f) < count * 3 then Inl (Exit 4)
              else Inr \<lparr>h = hdr, px = to_pixels (take (count * 3) (drop (nat pos) f))\<rparr>)"

text \<open>
  \<^verbatim>\<open>writeTGA\<close>: the header the image carries, then the pixels; the writes are not
  checked. The result is the byte sequence handed to the stream.
\<close>

definition writeTGA :: "ofstream \<Rightarrow> Img \<Rightarrow> error + u8 list" where
  "writeTGA out im =
     (if out = OpenFails then Inl (Exit 5)
      else Inr (header_bytes (h im) @ from_pixels (px im)))"

text \<open>\<^verbatim>\<open>combineRGB\<close> of project2.cpp (lines 156-168).\<close>

definition p2_combineRGB :: "Img \<Rightarrow> Img \<Rightarrow> Img \<Rightarrow> error + Img" where
  "p2_combineRGB ri gi bi =
     (if hwidth (h ri) \<noteq> hwidth (h gi) \<or> hwidth (h ri) \<noteq> hwidth (h bi)
         \<or> hheight (h ri) \<noteq> hheight (h gi) \<or> hheight (h ri) \<noteq> hheight (h bi)
      then Inl (Exit 99)
      else if length (px gi) < length (px ri) \<or> length (px bi) < length (px ri)
      then Inl UndefinedBehaviour
      else Inr (ri\<lparr>px := map (\<lambda>i. \<lparr>b = b (px bi ! i), g = g (px gi ! i), r = r (px ri ! i)\<rparr>)
                              [0..<length (px ri)]\<rparr>))"

text \<open>\<^verbatim>\<open>rot180\<close>: a copy of the source whose pixel vector is reversed.\<close>

definition rot180 :: "Img \<Rightarrow> Img" where
  "rot180 src = src\<lparr>px := rev (px src)\<rparr>"

section \<open>Rounding of the blend formulas\<close>

lemma cdiv_nonneg: "0 \<le> x \<Longrightarrow> 0 < y \<Longrightarrow> cdiv x y = x div y"
  by (cases "x = 0") (simp_all add: cdiv_def)

lemma round_div_255: "round (real_of_int n / 255) = (n + 127) div 255"
proof -
  have "round (real_of_int n / 255) = \<lfloor>real_of_int (2 * n + 255) / real_of_int 510\<rfloor>"
    unfolding round_def by (simp add: field_simps)
  also have "\<dots> = (2 * n + 255) div 510" by (rule floor_divide_of_int_eq)
  also have "\<dots> = (n + 127) div 255" by linarith
  finally show ?thesis .
qed

lemma uint_u8_bounds: "0 \<le> uint (x::u8) \<and> uint x \<le> 255"
  using uint_lt2p [of x] by simp

lemma prod_u8_le: "uint (x::u8) * uint (y::u8) \<le> 65025"
proof -
  have "uint x * uint y \<le> 255 * 255"
    using uint_u8_bounds [of x] uint_u8_bounds [of y] by (intro mult_mono) auto
  then show ?thesis by simp
qed

lemma uint_word_of_int_u8: "0 \<le> n \<Longrightarrow> n \<le> 255 \<Longrightarrow> uint (word_of_int n :: u8) = n"
  by (simp add: uint_word_of_int)

lemma multiply_lut_value: "uint (multiply_lut x y) = (uint x * uint y + 127) div 255"
proof -
  have p: "0 \<le> uint x * uint y" by simp
  have q: "uint x * uint y \<le> 65025" by (rule prod_u8_le)
  have "(uint x * uint y + 127) div 255 \<le> 255" using q by linarith
  moreover have "0 \<le> (uint x * uint y + 127) div 255" using p by linarith
  ultimately show ?thesis
    using p by (simp add: multiply_lut_def mul255_round_def cdiv_nonneg uint_word_of_int_u8)
qed

lemma screen_lut_value:
  "uint (screen_lut x y) = 255 - ((255 - uint x) * (255 - uint y) + 127) div 255"
proof -
  let ?n = "(255 - uint x) * (255 - uint y)"
  have p: "0 \<le> ?n" using uint_u8_bounds [of x] uint_u8_bounds [of y] by simp
  have "?n \<le> 255 * 255"
    using uint_u8_bounds [of x] uint_u8_bounds [of y] by (intro mult_mono) auto
  then have q: "?n \<le> 65025" by simp
  have u: "255 - (?n + 127) div 255 \<le> 255" using p by linarith
  have l: "0 \<le> 255 - (?n + 127) div 255" using q by linarith
  have "screen_lut x y = word_of_int (255 - (?n + 127) div 255)"
    using p unfolding screen_lut_def scr255_round_def by (simp only: cdiv_nonneg)
  then show ?thesis
    using uint_word_of_int_u8 [OF l u] by simp
qed

text \<open>
  The table-driven \<^verbatim>\<open>Blend::blendPixel\<close> (part_000, lines 128-166) rounds to nearest in
  both modes, with the first argument the base sample and the second the overlay sample.
\<close>

lemma Blend_multiply_rounds:
  "uint (blendSample MULTIPLY x y) = round (real_of_int (uint x * uint y) / 255)"
  by (simp only: blendSample.simps multiply_lut_value round_div_255)

lemma Blend_screen_rounds:
  "uint (blendSample SCREEN x y)
     = 255 - round (real_of_int ((255 - uint x) * (255 - uint y)) / 255)"
  by (simp only: blendSample.simps screen_lut_value round_div_255)

text \<open>
  C1. Multiply returns \<open>round(b*o/255)\<close> and Screen returns
  \<open>255 - round((255-b)*(255-o)/255)\<close>, rounding to nearest and not truncating.
  \<^verbatim>\<open>blend\<close> of project2.cpp (lines 99-114) divides with truncation: for base sample 1
  under overlay sample 128 Multiply gives 0 where rounding gives 1, and for base sample
  254 under overlay sample 127 Screen gives 255 where rounding gives 254. The table-driven
  \<^verbatim>\<open>Blend::blendPixel\<close> returns the rounded values on the same samples.
\<close>

theorem C1_blend_truncates:
  "blend (gray1x1 128) (gray1x1 1) MULTI = Inr (gray1x1 0)
   \<and> round (real_of_int (1 * 128) / 255) = 1
   \<and> blendSample MULTIPLY 1 128 = 1
   \<and> blend (gray1x1 127) (gray1x1 254) P2_SCREEN = Inr (gray1x1 255)
   \<and> 255 - round (real_of_int ((255 - 254) * (255 - 127)) / 255) = 254
   \<and> blendSample SCREEN 254 127 = 254"
proof -
  have "blend (gray1x1 128) (gray1x1 1) MULTI = Inr (gray1x1 0)"
    by (simp add: blend_def gray1x1_def mkHeader_def c255_def CLAMP_def cdiv_def)
  moreover have "round (real_of_int (1 * 128) / 255) = 1"
    using round_div_255 [of "1 * 128"] by simp
  moreover have "blendSample MULTIPLY 1 128 = 1"
    by (simp add: multiply_lut_def mul255_round_def cdiv_def)
  moreover have "blend (gray1x1 127) (gray1x1 254) P2_SCREEN = Inr (gray1x1 255)"
    by (simp add: blend_def gray1x1_def mkHeader_def c255_def CLAMP_def cdiv_def blend_S_def)
  moreover have "255 - round (real_of_int ((255 - 254) * (255 - 127)) / 255) = 254"
    using round_div_255 [of "(255 - 254) * (255 - 127)"] by simp
  moreover have "blendSample SCREEN 254 127 = 254"
    by (simp add: screen_lut_def scr255_round_def cdiv_def)
  ultimately show ?thesis by blast
qed

theorem C1_blend_truncates_witness:
  "blend (gray1x1 128) (gray1x1 1) MULTI = Inr (gray1x1 0)
   \<and> blend (gray1x1 127) (gray1x1 254) P2_SCREEN = Inr (gray1x1 255)"
  using C1_blend_truncates by blast

section \<open>Overlay\<close>

text \<open>
  The table-driven \<^verbatim>\<open>Blend::blendPixel\<close> (part_000, lines 168-175): the branch is on the
  base sample at 128, and both branches round to nearest.
\<close>

lemma overlay_value:
  "uint (blendSample OVERLAY x y)
     = (if uint x < 128 then (2 * uint x * uint y + 127) div 255
        else 255 - (2 * (255 - uint x) * (255 - uint y) + 127) div 255)"
proof (cases "uint x < 128")
  case True
  let ?n = "2 * uint x * uint y"
  have n0: "0 \<le> ?n" by simp
  have "uint x * uint y \<le> 127 * 255"
    using True uint_u8_bounds [of x] uint_u8_bounds [of y] by (intro mult_mono) auto
  then have nb: "?n \<le> 64770" by simp
  have l: "0 \<le> (?n + 127) div 255" using n0 by linarith
  have u: "(?n + 127) div 255 \<le> 255" using nb by linarith
  have m: "uint (mul255_round (2 * uint x) (uint y)) = (?n + 127) div 255"
    using n0 uint_word_of_int_u8 [OF l u] by (simp add: mul255_round_def cdiv_nonneg)
  show ?thesis
    using True m uint_word_of_int_u8 [OF l u] by (simp add: Let_def)
next
  case False
  let ?n = "2 * (255 - uint x) * (255 - uint y)"
  have a: "0 \<le> 255 - uint x" "255 - uint x \<le> 127" "0 \<le> 255 - uint y" "255 - uint y \<le> 255"
    using False uint_u8_bounds [of x] uint_u8_bounds [of y] by simp_all
  have n0: "0 \<le> ?n" using a by simp
  have "(255 - uint x) * (255 - uint y) \<le> 127 * 255"
    using a by (intro mult_mono) auto
  moreover have "?n = 2 * ((255 - uint x) * (255 - uint y))"
    by (simp only: mult.assoc)
  ultimately have nb: "?n \<le> 64770" by linarith
  have l: "0 \<le> (?n + 127) div 255" using n0 by linarith
  have u: "(?n + 127) div 255 \<le> 255" using nb by linarith
  have m: "uint (mul255_round (2 * (255 - uint x)) (255 - uint y)) = (?n + 127) div 255"
    using n0 uint_word_of_int_u8 [OF l u] by (simp add: mul255_round_def cdiv_nonneg)
  have l2: "0 \<le> 255 - (?n + 127) div 255" using u by simp
  have u2: "255 - (?n + 127) div 255 \<le> 255" using l by simp
  have "blendSample OVERLAY x y = word_of_int (255 - (?n + 127) div 255)"
    using False by (simp only: blendSample.simps Let_def m if_False)
  then show ?thesis
    using False uint_word_of_int_u8 [OF l2 u2] by simp
qed

lemma Blend_overlay_rounds:
  "uint (blendSample OVERLAY x y)
     = (if uint x < 128 then round (real_of_int (2 * uint x * uint y) / 255)
        else 255 - round (real_of_int (2 * (255 - uint x) * (255 - uint y)) / 255))"
  by (simp only: overlay_value round_div_255)

text \<open>
  C6. Overlay returns \<open>round(2*b*o/255)\<close> for a base sample \<open>b < 128\<close> and
  \<open>255 - round(2*(255-b)*(255-o)/255)\<close> otherwise, with the branch point at base value
  128. \<^verbatim>\<open>blend\<close> of project2.cpp (lines 115-123) branches on the bottom sample at 128 but
  divides with truncation: base 1 under overlay 64 gives 0 where rounding gives 1, and
  base 254 under overlay 191 gives 255 where rounding gives 254. The table-driven
  \<^verbatim>\<open>Blend::blendPixel\<close> returns the rounded values on the same samples.
\<close>

theorem C6_overlay_truncates:
  "blend (gray1x1 64) (gray1x1 1) P2_OVERLAY = Inr (gray1x1 0)
   \<and> round (real_of_int (2 * 1 * 64) / 255) = 1
   \<and> blendSample OVERLAY 1 64 = 1
   \<and> blend (gray1x1 191) (gray1x1 254) P2_OVERLAY = Inr (gray1x1 255)
   \<and> 255 - round (real_of_int (2 * (255 - 254) * (255 - 191)) / 255) = 254
   \<and> blendSample OVERLAY 254 191 = 254"
proof -
  have "blend (gray1x1 64) (gray1x1 1) P2_OVERLAY = Inr (gray1x1 0)"
    by (simp add: blend_def gray1x1_def mkHeader_def c255_def CLAMP_def cdiv_def blend_O_def)
  moreover have "round (real_of_int (2 * 1 * 64) / 255) = 1"
    using round_div_255 [of "2 * 1 * 64"] by simp
  moreover have "blendSample OVERLAY 1 64 = 1"
    by (simp add: mul255_round_def cdiv_def)
  moreover have "blend (gray1x1 191) (gray1x1 254) P2_OVERLAY = Inr (gray1x1 255)"
    by (simp add: blend_def gray1x1_def mkHeader_def c255_def CLAMP_def cdiv_def blend_O_def)
  moreover have "255 - round (real_of_int (2 * (255 - 254) * (255 - 191)) / 255) = 254"
    using round_div_255 [of "2 * (255 - 254) * (255 - 191)"] by simp
  moreover have "blendSample OVERLAY 254 191 = 254"
    by (simp add: mul255_round_def cdiv_def)
  ultimately show ?thesis by blast
qed

theorem C6_overlay_truncates_witness:
  "blend (gray1x1 64) (gray1x1 1) P2_OVERLAY = Inr (gray1x1 0)
   \<and> blend (gray1x1 191) (gray1x1 254) P2_OVERLAY = Inr (gray1x1 255)"
  using C6_overlay_truncates by blast

section \<open>Header bytes and the round trip of the table-driven codec\<close>


lemma le16_lo8_hi8: "le16 (lo8 w) (hi8 w) = w"
  unfolding le16_def lo8_def hi8_def
  by (rule bit_word_eqI) (auto simp add: bit_simps)

lemma parse_header_bytes: "parse_header (header_bytes hdr) = hdr"
  by (simp add: parse_header_def header_bytes_def le16_lo8_hi8)

lemma save_rows_take: "save_rows k rb ps = take (k * rb) ps"
proof (induction k)
  case 0
  show ?case by (simp add: save_rows_def)
next
  case (Suc k)
  have "save_rows (Suc k) rb ps = save_rows k rb ps @ take rb (drop (k * rb) ps)"
    by (simp add: save_rows_def)
  also have "\<dots> = take (k * rb) ps @ take rb (drop (k * rb) ps)"
    by (simp only: Suc.IH)
  also have "\<dots> = take (k * rb + rb) ps"
    by (simp only: take_add)
  finally show ?case by (simp add: add.commute)
qed

lemma length_header_bytes: "length (header_bytes hdr) = 18"
  by (simp add: header_bytes_def)

lemma read_header_bytes:
  "read_header (header_bytes hdr @ rest) = (hdr, True)"
  by (simp add: read_header_def length_header_bytes parse_header_bytes)


lemma int_mul_u16_Some: "unat w * unat y < 2 ^ 31 \<Longrightarrow> int_mul_u16 w y = Some (unat w * unat y)"
  by (simp add: int_mul_u16_def)

lemma mkHeader_sel [simp]:
  "idLength (mkHeader w y d) = 0" "colorMapType (mkHeader w y d) = 0"
  "dataTypeCode (mkHeader w y d) = 2" "hwidth (mkHeader w y d) = w"
  "hheight (mkHeader w y d) = y" "bitsPerPixel (mkHeader w y d) = 24"
  "imageDescriptor (mkHeader w y d) = d"
  by (simp_all add: mkHeader_def)

lemma TGA_save_good:
  assumes "valid_image img"
  shows "TGA_save StreamGood img
           = Inr (header_bytes (mkHeader (width img) (height img) 0) @ pixels img)"
proof -
  have len: "length (pixels img) = unat (height img) * (unat (width img) * 3)"
    using assms by (simp add: valid_image_def mult.commute mult.left_commute)
  have "save_rows (unat (height img)) (unat (width img) * 3) (pixels img) = pixels img"
    by (simp add: save_rows_take len)
  then show ?thesis
    by (simp add: TGA_save_def len)
qed

lemma TGA_load_saved:
  assumes v: "valid_image img" and f: "unat (width img) * unat (height img) < 2 ^ 31"
  shows "TGA_load (Some (header_bytes (mkHeader (width img) (height img) 0) @ pixels img)) = Inr img"
proof -
  have len: "length (pixels img) = 3 * (unat (width img) * unat (height img))"
    using v by (simp add: valid_image_def)
  show ?thesis
    by (simp add: TGA_load_def read_header_bytes int_mul_u16_Some [OF f] length_header_bytes len)
qed

lemma TGA_round_trip:
  assumes "valid_image img" and "unat (width img) * unat (height img) < 2 ^ 31"
  shows "\<exists>bytes. TGA_save StreamGood img = Inr bytes \<and> TGA_load (Some bytes) = Inr img"
  using TGA_save_good [OF assms(1)] TGA_load_saved [OF assms] by simp

lemma rev_upt_0: "rev [0..<n] = map (\<lambda>y. n - 1 - y) [0..<n]"
  by (rule nth_equalityI) (simp_all add: rev_nth)

lemma flip_rows_rev:
  "flip_rows hh rb ps = concat (rev (map (\<lambda>y. take rb (drop (y * rb) ps)) [0..<hh]))"
proof -
  have "rev (map (\<lambda>y. take rb (drop (y * rb) ps)) [0..<hh])
          = map (\<lambda>y. take rb (drop (y * rb) ps)) (map (\<lambda>y. hh - 1 - y) [0..<hh])"
    by (simp only: rev_map rev_upt_0)
  then show ?thesis
    by (simp add: flip_rows_def comp_def)
qed

lemma length_concat_rows:
  "(\<And>y. y < n \<Longrightarrow> length (f y) = k) \<Longrightarrow> length (concat (map f [0..<n])) = n * k"
  by (induction n) simp_all

lemma row_of_concat:
  "(\<And>row. row \<in> set rows \<Longrightarrow> length row = rb) \<Longrightarrow> y < length rows
   \<Longrightarrow> take rb (drop (y * rb) (concat rows)) = rows ! y"
proof (induction rows arbitrary: y)
  case Nil
  then show ?case by simp
next
  case (Cons row rows)
  have l: "length row = rb" using Cons.prems(1) by simp
  show ?case
  proof (cases y)
    case 0
    then show ?thesis using l by simp
  next
    case (Suc k)
    have "take rb (drop (k * rb) (concat rows)) = rows ! k"
      using Cons.prems Suc by (intro Cons.IH) simp_all
    then show ?thesis using l Suc by simp
  qed
qed

lemma length_flip_row:
  assumes "length ps = hh * rb" and "y < hh"
  shows "length (take rb (drop ((hh - 1 - y) * rb) ps)) = rb"
proof -
  have "hh - 1 - y < hh" using assms(2) by simp
  then have "Suc (hh - 1 - y) \<le> hh" by simp
  then have "Suc (hh - 1 - y) * rb \<le> hh * rb" by (rule mult_le_mono1)
  then show ?thesis using assms(1) by simp
qed

lemma length_flip_rows: "length ps = hh * rb \<Longrightarrow> length (flip_rows hh rb ps) = hh * rb"
  unfolding flip_rows_def by (rule length_concat_rows) (rule length_flip_row)

lemma flip_rows_twice:
  assumes len: "length ps = hh * rb"
  shows "flip_rows hh rb (flip_rows hh rb ps) = ps"
proof -
  let ?g = "\<lambda>y. take rb (drop ((hh - 1 - y) * rb) ps)"
  have rows: "\<And>row. row \<in> set (map ?g [0..<hh]) \<Longrightarrow> length row = rb"
    using length_flip_row [OF len] by auto
  have "map (\<lambda>y. take rb (drop ((hh - 1 - y) * rb) (flip_rows hh rb ps))) [0..<hh]
          = map (\<lambda>y. take rb (drop (y * rb) ps)) [0..<hh]"
  proof (rule map_cong [OF refl])
    fix y assume "y \<in> set [0..<hh]"
    then have y: "y < hh" by simp
    then have q: "hh - 1 - y < length (map ?g [0..<hh])" by simp
    have "take rb (drop ((hh - 1 - y) * rb) (flip_rows hh rb ps)) = map ?g [0..<hh] ! (hh - 1 - y)"
      unfolding flip_rows_def using rows q by (rule row_of_concat)
    also have "\<dots> = take rb (drop ((hh - 1 - (hh - 1 - y)) * rb) ps)"
      using y by simp
    also have "hh - 1 - (hh - 1 - y) = y" using y by simp
    finally show "take rb (drop ((hh - 1 - y) * rb) (flip_rows hh rb ps))
                    = take rb (drop (y * rb) ps)" .
  qed
  then have "concat (map (\<lambda>y. take rb (drop ((hh - 1 - y) * rb) (flip_rows hh rb ps))) [0..<hh])
          = save_rows hh rb ps"
    unfolding save_rows_def by (rule arg_cong)
  moreover have "flip_rows hh rb (flip_rows hh rb ps)
          = concat (map (\<lambda>y. take rb (drop ((hh - 1 - y) * rb) (flip_rows hh rb ps))) [0..<hh])"
    by (rule flip_rows_def)
  ultimately show ?thesis by (simp only: save_rows_take len take_all order_refl)
qed

text \<open>
  What \<^verbatim>\<open>TGA::load\<close> (part_000, lines 64-94) does with the orientation bit, for every
  file it decodes, and that a top-left file and a bottom-left file of the same image
  decode to the same buffer.
\<close>

lemma TGA_load_orientation:
  assumes "TGA_load (Some f) = Inr img"
  shows "width img = hwidth (fst (read_header f)) \<and> height img = hheight (fst (read_header f))
    \<and> (imageDescriptor (fst (read_header f)) AND 0x20 \<noteq> 0 \<longrightarrow>
         pixels img = flip_rows (unat (height img)) (unat (width img) * 3)
           (take (3 * (unat (width img) * unat (height img)))
              (drop (18 + unat (idLength (fst (read_header f)))) f)))
    \<and> (imageDescriptor (fst (read_header f)) AND 0x20 = 0 \<longrightarrow>
         pixels img = take (3 * (unat (width img) * unat (height img)))
              (drop (18 + unat (idLength (fst (read_header f)))) f))"
  using assms
  by (auto simp add: TGA_load_def Let_def int_mul_u16_def split: if_splits)

lemma TGA_load_same_image:
  assumes len: "length ps = 3 * (unat w * unat y)" and f: "unat w * unat y < 2 ^ 31"
  shows "TGA_load (Some (header_bytes (mkHeader w y 0x20) @ flip_rows (unat y) (unat w * 3) ps))
           = Inr \<lparr>width = w, height = y, pixels = ps\<rparr>"
    and "TGA_load (Some (header_bytes (mkHeader w y 0x00) @ ps))
           = Inr \<lparr>width = w, height = y, pixels = ps\<rparr>"
proof -
  have l2: "length ps = unat y * (unat w * 3)" using len by (simp add: mult.commute mult.left_commute)
  have lf: "length (flip_rows (unat y) (unat w * 3) ps) = 3 * (unat w * unat y)"
    using length_flip_rows [OF l2] by (simp add: mult.commute mult.left_commute)
  have bit: "(0x20 :: u8) AND 0x20 \<noteq> 0" by simp
  show "TGA_load (Some (header_bytes (mkHeader w y 0x20) @ flip_rows (unat y) (unat w * 3) ps))
           = Inr \<lparr>width = w, height = y, pixels = ps\<rparr>"
    using bit
    by (simp add: TGA_load_def read_header_bytes int_mul_u16_Some [OF f] length_header_bytes lf
        flip_rows_twice [OF l2])
  show "TGA_load (Some (header_bytes (mkHeader w y 0x00) @ ps))
           = Inr \<lparr>width = w, height = y, pixels = ps\<rparr>"
    by (simp add: TGA_load_def read_header_bytes int_mul_u16_Some [OF f] length_header_bytes len)
qed

text \<open>
  The headers the four writers produce.
\<close>

lemma TGA_save_header:
  assumes "TGA_save out img = Inr bs"
  shows "take 18 bs = header_bytes (mkHeader (width img) (height img) 0)
    \<and> read_header bs = (mkHeader (width img) (height img) 0, True)"
  using assms
  by (auto simp add: TGA_save_def length_header_bytes read_header_bytes split: if_splits)

lemma TGA_save_v2_header:
  assumes "TGA_save_v2 out img = Inr bs"
  shows "take 18 bs = header_bytes (mkHeader (width img) (height img) 0)"
  using assms
  by (auto simp add: TGA_save_v2_def length_header_bytes split: if_splits)

lemma TGA_save_v3_header:
  "TGA_save_v3 StreamGood img
     = Inr (header_bytes (mkHeader (width img) (height img) 0x20) @ pixels img)"
  by (simp add: TGA_save_v3_def)

lemma writeTGA_header:
  "writeTGA StreamGood im = Inr (header_bytes (h im) @ from_pixels (px im))"
  by (simp add: writeTGA_def)

text \<open>
  The header tests of \<^verbatim>\<open>TGA::load\<close> (part_000, lines 70-72): three distinct errors, all
  raised before the payload is read, and no image for a header that fails one.
\<close>

lemma TGA_load_rejects:
  "colorMapType (fst (read_header f)) \<noteq> 0 \<Longrightarrow> TGA_load (Some f) = Inl OnlyUnmapped"
  "colorMapType (fst (read_header f)) = 0 \<Longrightarrow> dataTypeCode (fst (read_header f)) \<noteq> 2
     \<Longrightarrow> TGA_load (Some f) = Inl NeedUncompressed"
  "colorMapType (fst (read_header f)) = 0 \<Longrightarrow> dataTypeCode (fst (read_header f)) = 2
     \<Longrightarrow> bitsPerPixel (fst (read_header f)) \<noteq> 24 \<Longrightarrow> TGA_load (Some f) = Inl Need24Bit"
  by (simp_all add: TGA_load_def Let_def)

lemma TGA_load_accepts_only_valid_headers:
  assumes "TGA_load (Some f) = Inr img"
  shows "colorMapType (fst (read_header f)) = 0 \<and> dataTypeCode (fst (read_header f)) = 2
         \<and> bitsPerPixel (fst (read_header f)) = 24"
  using assms by (auto simp add: TGA_load_def Let_def split: if_splits)

text \<open>
  The pair \<^verbatim>\<open>TGA::save\<close> and \<^verbatim>\<open>TGA::load\<close> at part_000 lines 570-621: what comes back is
  the buffer with its rows in reverse order.
\<close>

lemma TGA_round_trip_v2:
  assumes v: "valid_image img" and f: "unat (width img) * unat (height img) < 2 ^ 31"
  shows "\<exists>bytes. TGA_save_v2 StreamGood img = Inr bytes
     \<and> TGA_load_v2 (Some bytes)
         = Inr (img\<lparr>pixels := flip_rows (unat (height img)) (unat (width img) * 3) (pixels img)\<rparr>)"
proof -
  let ?fl = "flip_rows (unat (height img)) (unat (width img) * 3) (pixels img)"
  have len: "length (pixels img) = unat (height img) * (unat (width img) * 3)"
    using v by (simp add: valid_image_def mult.commute mult.left_commute)
  have lf: "length ?fl = 3 * (unat (width img) * unat (height img))"
    using length_flip_rows [OF len] by (simp add: mult.commute mult.left_commute)
  have s: "TGA_save_v2 StreamGood img
             = Inr (header_bytes (mkHeader (width img) (height img) 0) @ ?fl)"
    by (simp add: TGA_save_v2_def len)
  have "TGA_load_v2 (Some (header_bytes (mkHeader (width img) (height img) 0) @ ?fl))
          = Inr \<lparr>width = width img, height = height img, pixels = ?fl\<rparr>"
    by (simp add: TGA_load_v2_def read_header_bytes int_mul_u16_Some [OF f] length_header_bytes lf)
  then show ?thesis using s by simp
qed

section \<open>Concrete files\<close>

lemma flip_rows_1x2: "flip_rows 2 3 [x1, x2, x3, x4, x5, x6] = [x4, x5, x6, x1, x2, x3]"
  by (simp add: flip_rows_def upt_rec)

lemma header_bytes_mkHeader:
  "header_bytes (mkHeader 1 2 d) = [0, 0, 2, 0, 0, 0, 0, 0, 0, 0, 0, 0, 1, 0, 2, 0, 24, d]"
  "header_bytes (mkHeader 1 1 d) = [0, 0, 2, 0, 0, 0, 0, 0, 0, 0, 0, 0, 1, 0, 1, 0, 24, d]"
  by (simp_all add: header_bytes_def mkHeader_def lo8_def hi8_def)

text \<open>
  C3. Encoding a valid buffer and decoding the file gives back the same width, height and
  pixel bytes. \<^verbatim>\<open>TGA::save\<close> at part_000 lines 602-621 writes the rows in reverse order
  under descriptor 0, and no \<^verbatim>\<open>TGA::load\<close> reverses them back: the 1x2 buffer with rows
  \<open>[1,2,3]\<close> and \<open>[4,5,6]\<close> comes back with its rows swapped. \<^verbatim>\<open>TGA::save\<close> at lines
  96-115 writes the rows in buffer order (last conjunct; lemma \<open>TGA_round_trip\<close> is the
  round trip of that pair).
\<close>

theorem C3_save_v2_reverses_rows:
  "TGA_save_v2 StreamGood \<lparr>width = 1, height = 2, pixels = [1, 2, 3, 4, 5, 6]\<rparr>
     = Inr ([0, 0, 2, 0, 0, 0, 0, 0, 0, 0, 0, 0, 1, 0, 2, 0, 24, 0] @ [4, 5, 6, 1, 2, 3])
   \<and> TGA_load_v2 (Some ([0, 0, 2, 0, 0, 0, 0, 0, 0, 0, 0, 0, 1, 0, 2, 0, 24, 0] @ [4, 5, 6, 1, 2, 3]))
     = Inr \<lparr>width = 1, height = 2, pixels = [4, 5, 6, 1, 2, 3]\<rparr>
   \<and> TGA_load (Some ([0, 0, 2, 0, 0, 0, 0, 0, 0, 0, 0, 0, 1, 0, 2, 0, 24, 0] @ [4, 5, 6, 1, 2, 3]))
     = Inr \<lparr>width = 1, height = 2, pixels = [4, 5, 6, 1, 2, 3]\<rparr>
   \<and> TGA_save StreamGood \<lparr>width = 1, height = 2, pixels = [1, 2, 3, 4, 5, 6]\<rparr>
     = Inr ([0, 0, 2, 0, 0, 0, 0, 0, 0, 0, 0, 0, 1, 0, 2, 0, 24, 0] @ [1, 2, 3, 4, 5, 6])"
proof -
  have hb: "[0, 0, 2, 0, 0, 0, 0, 0, 0, 0, 0, 0, 1, 0, 2, 0, 24, 0] = header_bytes (mkHeader 1 2 0)"
    by (simp add: header_bytes_mkHeader)
  have "TGA_save_v2 StreamGood \<lparr>width = 1, height = 2, pixels = [1, 2, 3, 4, 5, 6]\<rparr>
     = Inr (header_bytes (mkHeader 1 2 0) @ [4, 5, 6, 1, 2, 3])"
    by (simp add: TGA_save_v2_def flip_rows_1x2)
  moreover have "TGA_load_v2 (Some (header_bytes (mkHeader 1 2 0) @ [4, 5, 6, 1, 2, 3]))
     = Inr \<lparr>width = 1, height = 2, pixels = [4, 5, 6, 1, 2, 3]\<rparr>"
    by (simp add: TGA_load_v2_def read_header_bytes int_mul_u16_def length_header_bytes)
  moreover have "TGA_load (Some (header_bytes (mkHeader 1 2 0) @ [4, 5, 6, 1, 2, 3]))
     = Inr \<lparr>width = 1, height = 2, pixels = [4, 5, 6, 1, 2, 3]\<rparr>"
    by (simp add: TGA_load_def read_header_bytes int_mul_u16_def length_header_bytes)
  moreover have "TGA_save StreamGood \<lparr>width = 1, height = 2, pixels = [1, 2, 3, 4, 5, 6]\<rparr>
     = Inr (header_bytes (mkHeader 1 2 0) @ [1, 2, 3, 4, 5, 6])"
    by (simp add: TGA_save_def save_rows_take)
  ultimately show ?thesis unfolding hb by blast
qed

theorem C3_save_v2_reverses_rows_witness:
  "TGA_save_v2 StreamGood \<lparr>width = 1, height = 2, pixels = [1, 2, 3, 4, 5, 6]\<rparr>
     = Inr ([0, 0, 2, 0, 0, 0, 0, 0, 0, 0, 0, 0, 1, 0, 2, 0, 24, 0] @ [4, 5, 6, 1, 2, 3])
   \<and> TGA_load_v2 (Some ([0, 0, 2, 0, 0, 0, 0, 0, 0, 0, 0, 0, 1, 0, 2, 0, 24, 0] @ [4, 5, 6, 1, 2, 3]))
     = Inr \<lparr>width = 1, height = 2, pixels = [4, 5, 6, 1, 2, 3]\<rparr>"
  using C3_save_v2_reverses_rows by blast

text \<open>
  C4. A decoder reverses the scanlines of a file whose orientation bit 0x20 is set and
  copies the payload of a file whose bit is clear, so that a top-left file and a
  bottom-left file of the same image decode to the same buffer. \<^verbatim>\<open>readTGA\<close> of
  project2.cpp (lines 49-71) never looks at the bit: the top-left file with rows
  \<open>[1,2,3]\<close>, \<open>[4,5,6]\<close> and the bottom-left file of the same image decode to different
  pixel sequences. \<^verbatim>\<open>TGA::load\<close> decodes both to the same buffer.
\<close>

theorem C4_readTGA_ignores_orientation:
  "readTGA (Some ([0, 0, 2, 0, 0, 0, 0, 0, 0, 0, 0, 0, 1, 0, 2, 0, 24, 0x20] @ [1, 2, 3, 4, 5, 6]))
     = Inr \<lparr>h = mkHeader 1 2 0x20, px = [\<lparr>b = 1, g = 2, r = 3\<rparr>, \<lparr>b = 4, g = 5, r = 6\<rparr>]\<rparr>
   \<and> readTGA (Some ([0, 0, 2, 0, 0, 0, 0, 0, 0, 0, 0, 0, 1, 0, 2, 0, 24, 0] @ [4, 5, 6, 1, 2, 3]))
     = Inr \<lparr>h = mkHeader 1 2 0, px = [\<lparr>b = 4, g = 5, r = 6\<rparr>, \<lparr>b = 1, g = 2, r = 3\<rparr>]\<rparr>
   \<and> TGA_load (Some ([0, 0, 2, 0, 0, 0, 0, 0, 0, 0, 0, 0, 1, 0, 2, 0, 24, 0x20] @ [1, 2, 3, 4, 5, 6]))
     = Inr \<lparr>width = 1, height = 2, pixels = [4, 5, 6, 1, 2, 3]\<rparr>
   \<and> TGA_load (Some ([0, 0, 2, 0, 0, 0, 0, 0, 0, 0, 0, 0, 1, 0, 2, 0, 24, 0] @ [4, 5, 6, 1, 2, 3]))
     = Inr \<lparr>width = 1, height = 2, pixels = [4, 5, 6, 1, 2, 3]\<rparr>"
proof -
  have hb: "[0, 0, 2, 0, 0, 0, 0, 0, 0, 0, 0, 0, 1, 0, 2, 0, 24, 0x20] = header_bytes (mkHeader 1 2 0x20)"
    "[0, 0, 2, 0, 0, 0, 0, 0, 0, 0, 0, 0, 1, 0, 2, 0, 24, 0] = header_bytes (mkHeader 1 2 0)"
    by (simp_all add: header_bytes_mkHeader)
  have "readTGA (Some (header_bytes (mkHeader 1 2 0x20) @ [1, 2, 3, 4, 5, 6]))
     = Inr \<lparr>h = mkHeader 1 2 0x20, px = [\<lparr>b = 1, g = 2, r = 3\<rparr>, \<lparr>b = 4, g = 5, r = 6\<rparr>]\<rparr>"
    by (simp add: readTGA_def read_header_bytes length_header_bytes)
  moreover have "readTGA (Some (header_bytes (mkHeader 1 2 0) @ [4, 5, 6, 1, 2, 3]))
     = Inr \<lparr>h = mkHeader 1 2 0, px = [\<lparr>b = 4, g = 5, r = 6\<rparr>, \<lparr>b = 1, g = 2, r = 3\<rparr>]\<rparr>"
    by (simp add: readTGA_def read_header_bytes length_header_bytes)
  moreover have "TGA_load (Some (header_bytes (mkHeader 1 2 0x20) @ [1, 2, 3, 4, 5, 6]))
     = Inr \<lparr>width = 1, height = 2, pixels = [4, 5, 6, 1, 2, 3]\<rparr>"
    by (simp add: TGA_load_def read_header_bytes int_mul_u16_def length_header_bytes flip_rows_1x2)
  moreover have "TGA_load (Some (header_bytes (mkHeader 1 2 0) @ [4, 5, 6, 1, 2, 3]))
     = Inr \<lparr>width = 1, height = 2, pixels = [4, 5, 6, 1, 2, 3]\<rparr>"
    by (simp add: TGA_load_def read_header_bytes int_mul_u16_def length_header_bytes)
  ultimately show ?thesis unfolding hb by blast
qed

theorem C4_readTGA_ignores_orientation_witness:
  "readTGA (Some ([0, 0, 2, 0, 0, 0, 0, 0, 0, 0, 0, 0, 1, 0, 2, 0, 24, 0x20] @ [1, 2, 3, 4, 5, 6]))
     = Inr \<lparr>h = mkHeader 1 2 0x20, px = [\<lparr>b = 1, g = 2, r = 3\<rparr>, \<lparr>b = 4, g = 5, r = 6\<rparr>]\<rparr>
   \<and> readTGA (Some ([0, 0, 2, 0, 0, 0, 0, 0, 0, 0, 0, 0, 1, 0, 2, 0, 24, 0] @ [4, 5, 6, 1, 2, 3]))
     = Inr \<lparr>h = mkHeader 1 2 0, px = [\<lparr>b = 4, g = 5, r = 6\<rparr>, \<lparr>b = 1, g = 2, r = 3\<rparr>]\<rparr>"
  using C4_readTGA_ignores_orientation by blast

text \<open>
  C5. Every write produces an 18-byte header with data-type code 2, the buffer's width and
  height, 24 bits per pixel and image descriptor 0. \<^verbatim>\<open>TGA::save\<close> at part_000 lines
  1015-1034 writes descriptor 0x20, and \<^verbatim>\<open>writeTGA\<close> of project2.cpp (lines 73-78) writes
  the header the image was read with, here one with descriptor 0x20. \<^verbatim>\<open>TGA::save\<close> at
  lines 96-115 writes descriptor 0 (last conjunct; lemma \<open>TGA_save_header\<close> for every
  buffer).
\<close>

theorem C5_descriptor_written:
  "TGA_save_v3 StreamGood \<lparr>width = 1, height = 1, pixels = [1, 2, 3]\<rparr>
     = Inr ([0, 0, 2, 0, 0, 0, 0, 0, 0, 0, 0, 0, 1, 0, 1, 0, 24, 0x20] @ [1, 2, 3])
   \<and> readTGA (Some ([0, 0, 2, 0, 0, 0, 0, 0, 0, 0, 0, 0, 1, 0, 1, 0, 24, 0x20] @ [1, 2, 3]))
     = Inr \<lparr>h = mkHeader 1 1 0x20, px = [\<lparr>b = 1, g = 2, r = 3\<rparr>]\<rparr>
   \<and> writeTGA StreamGood \<lparr>h = mkHeader 1 1 0x20, px = [\<lparr>b = 1, g = 2, r = 3\<rparr>]\<rparr>
     = Inr ([0, 0, 2, 0, 0, 0, 0, 0, 0, 0, 0, 0, 1, 0, 1, 0, 24, 0x20] @ [1, 2, 3])
   \<and> TGA_save StreamGood \<lparr>width = 1, height = 1, pixels = [1, 2, 3]\<rparr>
     = Inr ([0, 0, 2, 0, 0, 0, 0, 0, 0, 0, 0, 0, 1, 0, 1, 0, 24, 0] @ [1, 2, 3])"
proof -
  have hb: "[0, 0, 2, 0, 0, 0, 0, 0, 0, 0, 0, 0, 1, 0, 1, 0, 24, 0x20] = header_bytes (mkHeader 1 1 0x20)"
    "[0, 0, 2, 0, 0, 0, 0, 0, 0, 0, 0, 0, 1, 0, 1, 0, 24, 0] = header_bytes (mkHeader 1 1 0)"
    by (simp_all add: header_bytes_mkHeader)
  have "TGA_save_v3 StreamGood \<lparr>width = 1, height = 1, pixels = [1, 2, 3]\<rparr>
     = Inr (header_bytes (mkHeader 1 1 0x20) @ [1, 2, 3])"
    by (simp add: TGA_save_v3_def)
  moreover have "readTGA (Some (header_bytes (mkHeader 1 1 0x20) @ [1, 2, 3]))
     = Inr \<lparr>h = mkHeader 1 1 0x20, px = [\<lparr>b = 1, g = 2, r = 3\<rparr>]\<rparr>"
    by (simp add: readTGA_def read_header_bytes length_header_bytes)
  moreover have "writeTGA StreamGood \<lparr>h = mkHeader 1 1 0x20, px = [\<lparr>b = 1, g = 2, r = 3\<rparr>]\<rparr>
     = Inr (header_bytes (mkHeader 1 1 0x20) @ [1, 2, 3])"
    by (simp add: writeTGA_def)
  moreover have "TGA_save StreamGood \<lparr>width = 1, height = 1, pixels = [1, 2, 3]\<rparr>
     = Inr (header_bytes (mkHeader 1 1 0) @ [1, 2, 3])"
    by (simp add: TGA_save_def save_rows_take)
  ultimately show ?thesis unfolding hb by blast
qed

theorem C5_descriptor_written_witness:
  "TGA_save_v3 StreamGood \<lparr>width = 1, height = 1, pixels = [1, 2, 3]\<rparr>
     = Inr ([0, 0, 2, 0, 0, 0, 0, 0, 0, 0, 0, 0, 1, 0, 1, 0, 24, 0x20] @ [1, 2, 3])
   \<and> writeTGA StreamGood \<lparr>h = mkHeader 1 1 0x20, px = [\<lparr>b = 1, g = 2, r = 3\<rparr>]\<rparr>
     = Inr ([0, 0, 2, 0, 0, 0, 0, 0, 0, 0, 0, 0, 1, 0, 1, 0, 24, 0x20] @ [1, 2, 3])"
  using C5_descriptor_written by blast

text \<open>
  C7. Decoding fails, with a distinct error each, when the colour-map type is not 0, when
  the data-type code is not 2 and when the bits per pixel are not 24. \<^verbatim>\<open>TGA::load\<close> at
  part_000 lines 570-600 and \<^verbatim>\<open>readTGA\<close> of project2.cpp (lines 49-71) have no
  colour-map test and decode a file whose colour-map type is 1; \<^verbatim>\<open>readTGA\<close> reports a
  wrong data-type code and a wrong bit depth with the same exit code 3. \<^verbatim>\<open>TGA::load\<close> at
  lines 64-94 rejects the colour-mapped file (lemma \<open>TGA_load_rejects\<close> for every file).
\<close>

theorem C7_colour_map_accepted:
  "TGA_load_v2 (Some ([0, 1, 2, 0, 0, 0, 0, 0, 0, 0, 0, 0, 1, 0, 1, 0, 24, 0] @ [1, 2, 3]))
     = Inr \<lparr>width = 1, height = 1, pixels = [1, 2, 3]\<rparr>
   \<and> readTGA (Some ([0, 1, 2, 0, 0, 0, 0, 0, 0, 0, 0, 0, 1, 0, 1, 0, 24, 0] @ [1, 2, 3]))
     = Inr \<lparr>h = (mkHeader 1 1 0)\<lparr>colorMapType := 1\<rparr>, px = [\<lparr>b = 1, g = 2, r = 3\<rparr>]\<rparr>
   \<and> TGA_load (Some ([0, 1, 2, 0, 0, 0, 0, 0, 0, 0, 0, 0, 1, 0, 1, 0, 24, 0] @ [1, 2, 3]))
     = Inl OnlyUnmapped
   \<and> readTGA (Some ([0, 0, 10, 0, 0, 0, 0, 0, 0, 0, 0, 0, 1, 0, 1, 0, 24, 0] @ [1, 2, 3]))
     = Inl (Exit 3)
   \<and> readTGA (Some ([0, 0, 2, 0, 0, 0, 0, 0, 0, 0, 0, 0, 1, 0, 1, 0, 32, 0] @ [1, 2, 3, 4]))
     = Inl (Exit 3)"
proof -
  have hb: "[0, 1, 2, 0, 0, 0, 0, 0, 0, 0, 0, 0, 1, 0, 1, 0, 24, 0]
              = header_bytes ((mkHeader 1 1 0)\<lparr>colorMapType := 1\<rparr>)"
    "[0, 0, 10, 0, 0, 0, 0, 0, 0, 0, 0, 0, 1, 0, 1, 0, 24, 0]
              = header_bytes ((mkHeader 1 1 0)\<lparr>dataTypeCode := 10\<rparr>)"
    "[0, 0, 2, 0, 0, 0, 0, 0, 0, 0, 0, 0, 1, 0, 1, 0, 32, 0]
              = header_bytes ((mkHeader 1 1 0)\<lparr>bitsPerPixel := 32\<rparr>)"
    by (simp_all add: header_bytes_def mkHeader_def lo8_def hi8_def)
  have "TGA_load_v2 (Some (header_bytes ((mkHeader 1 1 0)\<lparr>colorMapType := 1\<rparr>) @ [1, 2, 3]))
     = Inr \<lparr>width = 1, height = 1, pixels = [1, 2, 3]\<rparr>"
    by (simp add: TGA_load_v2_def read_header_bytes int_mul_u16_def length_header_bytes)
  moreover have "readTGA (Some (header_bytes ((mkHeader 1 1 0)\<lparr>colorMapType := 1\<rparr>) @ [1, 2, 3]))
     = Inr \<lparr>h = (mkHeader 1 1 0)\<lparr>colorMapType := 1\<rparr>, px = [\<lparr>b = 1, g = 2, r = 3\<rparr>]\<rparr>"
    by (simp add: readTGA_def read_header_bytes length_header_bytes)
  moreover have "TGA_load (Some (header_bytes ((mkHeader 1 1 0)\<lparr>colorMapType := 1\<rparr>) @ [1, 2, 3]))
     = Inl OnlyUnmapped"
    by (simp add: TGA_load_def read_header_bytes)
  moreover have "readTGA (Some (header_bytes ((mkHeader 1 1 0)\<lparr>dataTypeCode := 10\<rparr>) @ [1, 2, 3]))
     = Inl (Exit 3)"
    by (simp add: readTGA_def read_header_bytes)
  moreover have "readTGA (Some (header_bytes ((mkHeader 1 1 0)\<lparr>bitsPerPixel := 32\<rparr>) @ [1, 2, 3, 4]))
     = Inl (Exit 3)"
    by (simp add: readTGA_def read_header_bytes)
  ultimately show ?thesis unfolding hb by blast
qed

theorem C7_colour_map_accepted_witness:
  "TGA_load_v2 (Some ([0, 1, 2, 0, 0, 0, 0, 0, 0, 0, 0, 0, 1, 0, 1, 0, 24, 0] @ [1, 2, 3]))
     = Inr \<lparr>width = 1, height = 1, pixels = [1, 2, 3]\<rparr>
   \<and> readTGA (Some ([0, 1, 2, 0, 0, 0, 0, 0, 0, 0, 0, 0, 1, 0, 1, 0, 24, 0] @ [1, 2, 3]))
     = Inr \<lparr>h = (mkHeader 1 1 0)\<lparr>colorMapType := 1\<rparr>, px = [\<lparr>b = 1, g = 2, r = 3\<rparr>]\<rparr>"
  using C7_colour_map_accepted by blast

section \<open>Subtract\<close>



lemma three_or_more:
  assumes "3 \<le> length xs"
  obtains x0 x1 x2 rest where "xs = x0 # x1 # x2 # rest"
proof -
  from assms have "Suc (Suc (Suc 0)) \<le> length xs" by simp
  then show ?thesis
    by (auto simp add: Suc_le_length_iff intro: that)
qed

lemma blendPixel_zip:
  assumes "3 \<le> length xs" and "3 \<le> length ys"
  shows "blendPixel m xs ys = map2 (blendSample m) (take 3 xs) (take 3 ys)"
proof -
  obtain x0 x1 x2 xr where xs: "xs = x0 # x1 # x2 # xr"
    using assms(1) by (rule three_or_more)
  obtain y0 y1 y2 yr where ys: "ys = y0 # y1 # y2 # yr"
    using assms(2) by (rule three_or_more)
  have "[0..<3] = [0, 1, 2]" by (simp add: upt_rec)
  then show ?thesis
    by (simp add: blendPixel_def xs ys)
qed

lemma blend_loop_zip:
  "3 * n \<le> length bp \<Longrightarrow> 3 * n \<le> length tp \<Longrightarrow>
   blend_loop m n bp tp = map2 (blendSample m) (take (3 * n) bp) (take (3 * n) tp)"
proof (induction n arbitrary: bp tp)
  case 0
  show ?case by simp
next
  case (Suc n)
  have a: "3 \<le> length bp" "3 \<le> length tp" using Suc.prems by simp_all
  have d: "3 * n \<le> length (drop 3 bp)" "3 * n \<le> length (drop 3 tp)"
    using Suc.prems by simp_all
  have s: "3 * Suc n = 3 + 3 * n" by simp
  have l: "length (take 3 bp) = length (take 3 tp)" using a by simp
  show ?case
    unfolding blend_loop.simps s take_add
    by (simp only: blendPixel_zip [OF a] Suc.IH [OF d] zip_append [OF l] map_append)
qed

lemma subtract_sample: "uint (blendSample SUBTRACT x y) = max 0 (uint x - uint y)"
proof (cases "y < x")
  case True
  then have lt: "uint y < uint x" by (simp add: word_less_def)
  have "uint x - uint y \<le> 255" using uint_u8_bounds [of x] uint_u8_bounds [of y] by linarith
  then have "uint (word_of_int (uint x - uint y) :: u8) = uint x - uint y"
    using lt by (intro uint_word_of_int_u8) simp_all
  then show ?thesis using True lt
    by (simp only: blendSample.simps if_True max_def) simp
next
  case False
  then have "uint x \<le> uint y" by (simp add: word_less_def not_less)
  then show ?thesis using False by simp
qed

lemma Blend_apply_valid:
  assumes d: "width base = width over" "height base = height over"
    and v: "valid_image base" "valid_image over"
    and f: "unat (width base) * unat (height base) < 2 ^ 31"
  shows "Blend_apply base over m
           = Inr \<lparr>width = width base, height = height base,
                  pixels = map2 (blendSample m) (pixels base) (pixels over)\<rparr>"
proof -
  let ?n = "unat (width base) * unat (height base)"
  have lb: "length (pixels base) = 3 * ?n" using v(1) by (simp add: valid_image_def)
  have lo: "length (pixels over) = 3 * ?n" using v(2) d by (simp add: valid_image_def)
  have loop: "blend_loop m ?n (pixels base) (pixels over)
          = map2 (blendSample m) (pixels base) (pixels over)"
    using blend_loop_zip [of ?n "pixels base" "pixels over" m] lb lo by simp
  have nd: "\<not> (width base \<noteq> width over \<or> height base \<noteq> height over)"
    using d by simp
  show ?thesis
    unfolding Blend_apply_def
    by (simp only: nd if_False int_mul_u16_Some [OF f] option.case lb lo loop) simp
qed

lemma c255_max: "x \<le> 255 \<Longrightarrow> uint (c255 x) = max 0 x"
  by (simp add: c255_def CLAMP_def uint_word_of_int_u8)

lemma u8_diff_le: "uint (x::u8) - uint (y::u8) \<le> 255"
  using uint_u8_bounds [of x] uint_u8_bounds [of y] by linarith

lemma blend_switch_SUBTR:
  "uint (b (blend_switch SUBTR A B)) = max 0 (uint (b B) - uint (b A))"
  "uint (g (blend_switch SUBTR A B)) = max 0 (uint (g B) - uint (g A))"
  "uint (r (blend_switch SUBTR A B)) = max 0 (uint (r B) - uint (r A))"
  by (simp_all add: c255_max u8_diff_le)

text \<open>
  C2. For equal-sized buffers the Subtract blend is, per pixel and per channel, base minus
  overlay (bottom minus top) floored at 0, never overlay minus base. First conjunct:
  \<^verbatim>\<open>Blend::apply(bot, top, SUBTRACT)\<close> of part_000, whose first argument is the base; the
  bound on the pixel count is the condition under which its \<^verbatim>\<open>int\<close> product
  \<^verbatim>\<open>width * height\<close> is defined, and every decoded buffer meets it (lemma
  \<open>TGA_load_valid\<close>). Second conjunct: \<^verbatim>\<open>blend(top, bottom, SUBTR)\<close> of project2.cpp,
  whose second argument is the base.
\<close>

theorem C2_subtract_base_minus_overlay:
  "(width base = width over \<and> height base = height over
      \<and> valid_image base \<and> valid_image over
      \<and> unat (width base) * unat (height base) < 2 ^ 31
    \<longrightarrow> (\<exists>out. Blend_apply base over SUBTRACT = Inr out
          \<and> width out = width base \<and> height out = height base
          \<and> length (pixels out) = length (pixels base)
          \<and> (\<forall>i < length (pixels base).
                uint (pixels out ! i) = max 0 (uint (pixels base ! i) - uint (pixels over ! i)))))
   \<and> (hwidth (h tp) = hwidth (h bt) \<and> hheight (h tp) = hheight (h bt)
        \<and> length (px tp) = length (px bt)
    \<longrightarrow> (\<exists>out. blend tp bt SUBTR = Inr out
          \<and> h out = h tp \<and> length (px out) = length (px bt)
          \<and> (\<forall>i < length (px bt).
                uint (b (px out ! i)) = max 0 (uint (b (px bt ! i)) - uint (b (px tp ! i)))
              \<and> uint (g (px out ! i)) = max 0 (uint (g (px bt ! i)) - uint (g (px tp ! i)))
              \<and> uint (r (px out ! i)) = max 0 (uint (r (px bt ! i)) - uint (r (px tp ! i))))))"
proof (intro conjI impI)
  assume a: "width base = width over \<and> height base = height over
      \<and> valid_image base \<and> valid_image over
      \<and> unat (width base) * unat (height base) < 2 ^ 31"
  then have len: "length (pixels base) = length (pixels over)"
    by (simp add: valid_image_def)
  have "Blend_apply base over SUBTRACT
           = Inr \<lparr>width = width base, height = height base,
                  pixels = map2 (blendSample SUBTRACT) (pixels base) (pixels over)\<rparr>"
    using a by (intro Blend_apply_valid) blast+
  then show "\<exists>out. Blend_apply base over SUBTRACT = Inr out
          \<and> width out = width base \<and> height out = height base
          \<and> length (pixels out) = length (pixels base)
          \<and> (\<forall>i < length (pixels base).
                uint (pixels out ! i) = max 0 (uint (pixels base ! i) - uint (pixels over ! i)))"
    using len by (simp add: subtract_sample del: blendSample.simps)
next
  assume a: "hwidth (h tp) = hwidth (h bt) \<and> hheight (h tp) = hheight (h bt)
        \<and> length (px tp) = length (px bt)"
  then have "blend tp bt SUBTR
     = Inr (tp\<lparr>px := map (\<lambda>i. blend_switch SUBTR (px tp ! i) (px bt ! i)) [0..<length (px tp)]\<rparr>)"
    by (simp add: blend_def)
  then show "\<exists>out. blend tp bt SUBTR = Inr out
          \<and> h out = h tp \<and> length (px out) = length (px bt)
          \<and> (\<forall>i < length (px bt).
                uint (b (px out ! i)) = max 0 (uint (b (px bt ! i)) - uint (b (px tp ! i)))
              \<and> uint (g (px out ! i)) = max 0 (uint (g (px bt ! i)) - uint (g (px tp ! i)))
              \<and> uint (r (px out ! i)) = max 0 (uint (r (px bt ! i)) - uint (r (px tp ! i))))"
    using a by (simp add: blend_switch_SUBTR del: blend_switch.simps)
qed

theorem C2_subtract_witness:
  "valid_image \<lparr>width = 1, height = 1, pixels = [200, 150, 40]\<rparr>
   \<and> valid_image \<lparr>width = 1, height = 1, pixels = [50, 50, 50]\<rparr>
   \<and> Blend_apply \<lparr>width = 1, height = 1, pixels = [200, 150, 40]\<rparr>
         \<lparr>width = 1, height = 1, pixels = [50, 50, 50]\<rparr> SUBTRACT
       = Inr \<lparr>width = 1, height = 1, pixels = [150, 100, 0]\<rparr>
   \<and> blend (gray1x1 100) (gray1x1 50) SUBTR = Inr (gray1x1 0)
   \<and> blend (gray1x1 50) (gray1x1 200) SUBTR = Inr (gray1x1 150)"
  using C2_subtract_base_minus_overlay
    [of "\<lparr>width = 1, height = 1, pixels = [200, 150, 40]\<rparr>"
        "\<lparr>width = 1, height = 1, pixels = [50, 50, 50]\<rparr>" "gray1x1 100" "gray1x1 50"]
  by (simp add: valid_image_def Blend_apply_def int_mul_u16_def blendPixel_def upt_rec
      blend_def gray1x1_def c255_def CLAMP_def)

section \<open>The divisions of blend in project2.cpp\<close>

text \<open>
  For every pair of samples, \<^verbatim>\<open>blend\<close> of project2.cpp returns the quotient rounded down:
  \<open>x\<close> is the top sample and \<open>y\<close> the bottom sample.
\<close>

lemma c255_id: "0 \<le> x \<Longrightarrow> x \<le> 255 \<Longrightarrow> uint (c255 x) = x"
  by (simp add: c255_max)

lemma trunc_multiply_le: "uint (x::u8) * uint (y::u8) div 255 \<le> 255"
  using prod_u8_le [of x y] by linarith

lemma blend_switch_MULTI_truncates:
  "uint (b (blend_switch MULTI A B)) = uint (b A) * uint (b B) div 255"
  "uint (g (blend_switch MULTI A B)) = uint (g A) * uint (g B) div 255"
  "uint (r (blend_switch MULTI A B)) = uint (r A) * uint (r B) div 255"
  by (simp_all add: cdiv_nonneg c255_id trunc_multiply_le pos_imp_zdiv_nonneg_iff)

lemma blend_S_truncates:
  "uint (c255 (blend_S (uint (x::u8)) (uint (y::u8))))
     = 255 - (255 - uint x) * (255 - uint y) div 255"
proof -
  let ?n = "(255 - uint x) * (255 - uint y)"
  have p: "0 \<le> ?n" using uint_u8_bounds [of x] uint_u8_bounds [of y] by simp
  have "?n \<le> 255 * 255"
    using uint_u8_bounds [of x] uint_u8_bounds [of y] by (intro mult_mono) auto
  then have q: "?n \<le> 65025" by simp
  have l: "0 \<le> 255 - ?n div 255" using q by linarith
  have u: "255 - ?n div 255 \<le> 255" using p by linarith
  have "blend_S (uint x) (uint y) = 255 - ?n div 255"
    using p by (simp add: blend_S_def cdiv_nonneg)
  then show ?thesis using c255_id [OF l u] by simp
qed

lemma blend_O_truncates:
  "uint (c255 (blend_O (uint (x::u8)) (uint (y::u8))))
     = (if uint y < 128 then 2 * uint x * uint y div 255
        else 255 - 2 * (255 - uint x) * (255 - uint y) div 255)"
proof (cases "uint y < 128")
  case True
  let ?n = "2 * uint x * uint y"
  have n0: "0 \<le> ?n" by simp
  have "uint x * uint y \<le> 255 * 127"
    using True uint_u8_bounds [of x] uint_u8_bounds [of y] by (intro mult_mono) auto
  then have nb: "?n \<le> 64770" by simp
  have l: "0 \<le> ?n div 255" using n0 by linarith
  have u: "?n div 255 \<le> 255" using nb by linarith
  have "blend_O (uint x) (uint y) = ?n div 255"
    using True n0 by (simp add: blend_O_def cdiv_nonneg)
  then show ?thesis using True c255_id [OF l u] by simp
next
  case False
  let ?n = "2 * (255 - uint x) * (255 - uint y)"
  have a: "0 \<le> 255 - uint x" "255 - uint x \<le> 255" "0 \<le> 255 - uint y" "255 - uint y \<le> 127"
    using False uint_u8_bounds [of x] uint_u8_bounds [of y] by simp_all
  have n0: "0 \<le> ?n" using a by simp
  have "(255 - uint x) * (255 - uint y) \<le> 255 * 127"
    using a by (intro mult_mono) auto
  moreover have "?n = 2 * ((255 - uint x) * (255 - uint y))"
    by (simp only: mult.assoc)
  ultimately have nb: "?n \<le> 64770" by linarith
  have l: "0 \<le> 255 - ?n div 255" using nb by linarith
  have u: "255 - ?n div 255 \<le> 255" using n0 by linarith
  have "blend_O (uint x) (uint y) = 255 - ?n div 255"
    using False n0 by (simp only: blend_O_def cdiv_nonneg if_False) 
  then show ?thesis using False c255_id [OF l u] by simp
qed

section \<open>Dimension mismatch\<close>

text \<open>
  C8. Every binary operation fails with a size-mismatch error, and returns no buffer, when
  its operands differ in width or in height: \<^verbatim>\<open>Blend::apply\<close> in every mode and
  \<^verbatim>\<open>combineRGB\<close> of part_000 (the exception thrown before any buffer is allocated), and
  \<^verbatim>\<open>blend\<close> and \<^verbatim>\<open>combineRGB\<close> of project2.cpp (exit codes 42 and 99).
\<close>

theorem C8_dimension_mismatch:
  "(width base \<noteq> width over \<or> height base \<noteq> height over
      \<longrightarrow> Blend_apply base over m = Inl BlendSizeMismatch)
   \<and> (\<not> (width ri = width gi \<and> width gi = width bi
           \<and> height ri = height gi \<and> height gi = height bi)
      \<longrightarrow> combineRGB ri gi bi = Inl CombineSizeMismatch)
   \<and> (hwidth (h tp) \<noteq> hwidth (h bt) \<or> hheight (h tp) \<noteq> hheight (h bt)
      \<longrightarrow> blend tp bt pm = Inl (Exit 42))
   \<and> (\<not> (hwidth (h pr) = hwidth (h pg) \<and> hwidth (h pg) = hwidth (h pb)
           \<and> hheight (h pr) = hheight (h pg) \<and> hheight (h pg) = hheight (h pb))
      \<longrightarrow> p2_combineRGB pr pg pb = Inl (Exit 99))"
proof (intro conjI impI)
  assume "width base \<noteq> width over \<or> height base \<noteq> height over"
  then show "Blend_apply base over m = Inl BlendSizeMismatch"
    by (simp add: Blend_apply_def)
next
  assume "\<not> (width ri = width gi \<and> width gi = width bi
           \<and> height ri = height gi \<and> height gi = height bi)"
  then have "width ri \<noteq> width gi \<or> width ri \<noteq> width bi
         \<or> height ri \<noteq> height gi \<or> height ri \<noteq> height bi"
    by auto
  then show "combineRGB ri gi bi = Inl CombineSizeMismatch"
    unfolding combineRGB_def by (rule if_P)
next
  assume "hwidth (h tp) \<noteq> hwidth (h bt) \<or> hheight (h tp) \<noteq> hheight (h bt)"
  then show "blend tp bt pm = Inl (Exit 42)"
    by (simp add: blend_def)
next
  assume "\<not> (hwidth (h pr) = hwidth (h pg) \<and> hwidth (h pg) = hwidth (h pb)
           \<and> hheight (h pr) = hheight (h pg) \<and> hheight (h pg) = hheight (h pb))"
  then have "hwidth (h pr) \<noteq> hwidth (h pg) \<or> hwidth (h pr) \<noteq> hwidth (h pb)
         \<or> hheight (h pr) \<noteq> hheight (h pg) \<or> hheight (h pr) \<noteq> hheight (h pb)"
    by auto
  then show "p2_combineRGB pr pg pb = Inl (Exit 99)"
    unfolding p2_combineRGB_def by (rule if_P)
qed

theorem C8_dimension_mismatch_witness:
  "Blend_apply \<lparr>width = 1, height = 1, pixels = [1, 2, 3]\<rparr>
       \<lparr>width = 1, height = 2, pixels = [1, 2, 3, 4, 5, 6]\<rparr> ADD = Inl BlendSizeMismatch
   \<and> combineRGB \<lparr>width = 1, height = 1, pixels = [1, 2, 3]\<rparr>
       \<lparr>width = 1, height = 1, pixels = [1, 2, 3]\<rparr>
       \<lparr>width = 2, height = 1, pixels = [1, 2, 3, 4, 5, 6]\<rparr> = Inl CombineSizeMismatch
   \<and> blend (gray1x1 1) \<lparr>h = mkHeader 2 1 0, px = [\<lparr>b = 1, g = 1, r = 1\<rparr>, \<lparr>b = 1, g = 1, r = 1\<rparr>]\<rparr>
       MULTI = Inl (Exit 42)
   \<and> p2_combineRGB (gray1x1 1) (gray1x1 1)
       \<lparr>h = mkHeader 1 2 0, px = [\<lparr>b = 1, g = 1, r = 1\<rparr>, \<lparr>b = 1, g = 1, r = 1\<rparr>]\<rparr>
       = Inl (Exit 99)"
  using C8_dimension_mismatch
    [of "\<lparr>width = 1, height = 1, pixels = [1, 2, 3]\<rparr>"
        "\<lparr>width = 1, height = 2, pixels = [1, 2, 3, 4, 5, 6]\<rparr>"
        ADD
        "\<lparr>width = 1, height = 1, pixels = [1, 2, 3]\<rparr>"
        "\<lparr>width = 1, height = 1, pixels = [1, 2, 3]\<rparr>"
        "\<lparr>width = 2, height = 1, pixels = [1, 2, 3, 4, 5, 6]\<rparr>"
        "gray1x1 1"
        "\<lparr>h = mkHeader 2 1 0, px = [\<lparr>b = 1, g = 1, r = 1\<rparr>, \<lparr>b = 1, g = 1, r = 1\<rparr>]\<rparr>"
        MULTI
        "gray1x1 1" "gray1x1 1"
        "\<lparr>h = mkHeader 1 2 0, px = [\<lparr>b = 1, g = 1, r = 1\<rparr>, \<lparr>b = 1, g = 1, r = 1\<rparr>]\<rparr>"]
  by (simp add: gray1x1_def)

section \<open>Rotation by 180 degrees\<close>



lemma length_concat_triples:
  "(\<And>p. length (f p) = 3) \<Longrightarrow> length (concat (map f [0..<n])) = 3 * n"
  by (induction n) simp_all

lemma concat_triples_nth:
  assumes len: "\<And>p. length (f p) = 3" and p: "p < n" and c: "c < 3"
  shows "concat (map f [0..<n]) ! (p * 3 + c) = f p ! c"
  using p
proof (induction n)
  case 0
  then show ?case by simp
next
  case (Suc n)
  have l: "length (concat (map f [0..<n])) = 3 * n"
    using len by (rule length_concat_triples)
  show ?case
  proof (cases "p < n")
    case True
    then have "p * 3 + c < 3 * n" using c by simp
    then show ?thesis using Suc.IH [OF True] l by (simp add: nth_append)
  next
    case False
    then have "p = n" using Suc.prems by simp
    then show ?thesis using l c by (simp add: nth_append mult.commute)
  qed
qed

lemma length_rotate_loop: "length (rotate_loop n s) = 3 * n"
  unfolding rotate_loop_def by (rule length_concat_triples) (simp add: Let_def)

lemma rotate_loop_nth:
  assumes "p < n" and "c < 3"
  shows "rotate_loop n s ! (p * 3 + c) = s ! ((n - 1 - p) * 3 + c)"
proof -
  let ?f = "\<lambda>p. let q = n - 1 - p in [s ! (q * 3 + 0), s ! (q * 3 + 1), s ! (q * 3 + 2)]"
  have "rotate_loop n s ! (p * 3 + c) = ?f p ! c"
    unfolding rotate_loop_def using assms by (intro concat_triples_nth) (simp_all add: Let_def)
  also have "\<dots> = s ! ((n - 1 - p) * 3 + c)"
  proof -
    from assms(2) have "c = 0 \<or> c = 1 \<or> c = 2" by auto
    then show ?thesis by (auto simp add: Let_def)
  qed
  finally show ?thesis .
qed

lemma rotate_loop_twice:
  assumes "length s = 3 * n"
  shows "rotate_loop n (rotate_loop n s) = s"
proof (rule nth_equalityI)
  show "length (rotate_loop n (rotate_loop n s)) = length s"
    using assms by (simp add: length_rotate_loop)
next
  fix j assume "j < length (rotate_loop n (rotate_loop n s))"
  then have j: "j < 3 * n" by (simp add: length_rotate_loop)
  define p where "p = j div 3"
  define c where "c = j mod 3"
  have jc: "j = p * 3 + c" and c: "c < 3" and p: "p < n"
    using j by (auto simp add: p_def c_def)
  have q: "n - 1 - p < n" using p by simp
  have "rotate_loop n (rotate_loop n s) ! j = rotate_loop n s ! ((n - 1 - p) * 3 + c)"
    unfolding jc by (rule rotate_loop_nth [OF p c])
  also have "\<dots> = s ! ((n - 1 - (n - 1 - p)) * 3 + c)"
    by (rule rotate_loop_nth [OF q c])
  also have "n - 1 - (n - 1 - p) = p" using p by simp
  finally show "rotate_loop n (rotate_loop n s) ! j = s ! j"
    by (simp add: jc)
qed

lemma rotate180_valid:
  assumes v: "valid_image src" and f: "unat (width src) * unat (height src) < 2 ^ 31"
  shows "rotate180 src = Inr \<lparr>width = width src, height = height src,
            pixels = rotate_loop (unat (width src) * unat (height src)) (pixels src)\<rparr>"
proof -
  have len: "length (pixels src) = 3 * (unat (width src) * unat (height src))"
    using v by (simp add: valid_image_def)
  show ?thesis
    by (simp add: rotate180_def int_mul_u16_Some [OF f] len rotate_loop_def)
qed

section \<open>Buffers the decoder produces\<close>

text \<open>
  Every buffer \<^verbatim>\<open>TGA::load\<close> returns has three samples per pixel and a pixel count below
  \<open>2 ^ 31\<close>, and \<^verbatim>\<open>Blend::apply\<close> and \<^verbatim>\<open>rotate180\<close> return buffers of the same
  dimensions: no buffer of the program leaves the range in which the \<^verbatim>\<open>int\<close> product
  \<^verbatim>\<open>width * height\<close> is defined.
\<close>

lemma TGA_load_valid:
  assumes "TGA_load fo = Inr img"
  shows "valid_image img \<and> unat (width img) * unat (height img) < 2 ^ 31"
proof -
  obtain f where fs: "fo = Some f"
    using assms by (cases fo) (simp_all add: TGA_load_def)
  let ?hdr = "fst (read_header f)"
  let ?n = "unat (hwidth ?hdr) * unat (hheight ?hdr)"
  let ?payload = "drop (18 + unat (idLength ?hdr)) f"
  have ok: "?n < 2 ^ 31" and long: "3 * ?n \<le> length ?payload"
    and w: "width img = hwidth ?hdr" and hh: "height img = hheight ?hdr"
    and ps: "pixels img = (if imageDescriptor ?hdr AND 0x20 \<noteq> 0
                then flip_rows (unat (hheight ?hdr)) (unat (hwidth ?hdr) * 3) (take (3 * ?n) ?payload)
                else take (3 * ?n) ?payload)"
    using assms unfolding fs
    by (auto simp add: TGA_load_def Let_def int_mul_u16_def split: if_splits)
  have lt: "length (take (3 * ?n) ?payload) = unat (hheight ?hdr) * (unat (hwidth ?hdr) * 3)"
    using long by (simp add: mult.commute mult.left_commute)
  have "length (pixels img) = unat (hheight ?hdr) * (unat (hwidth ?hdr) * 3)"
    unfolding ps using lt length_flip_rows [OF lt] by simp
  then have "valid_image img"
    by (simp add: valid_image_def w hh mult.commute mult.left_commute)
  then show ?thesis using ok w hh by simp
qed

lemma Blend_apply_keeps_valid:
  assumes "Blend_apply base over m = Inr out" and "valid_image base" and "valid_image over"
  shows "valid_image out \<and> width out = width base \<and> height out = height base"
proof -
  have d: "width base = width over" "height base = height over"
    and f: "unat (width base) * unat (height base) < 2 ^ 31"
    using assms(1)
    by (auto simp add: Blend_apply_def int_mul_u16_def split: if_splits)
  have "length (pixels base) = length (pixels over)"
    using assms(2,3) d by (simp add: valid_image_def)
  then show ?thesis
    using assms Blend_apply_valid [OF d assms(2,3) f, of m]
    by (auto simp add: valid_image_def)
qed

lemma rotate180_keeps_valid:
  assumes "rotate180 src = Inr out" and "valid_image src"
  shows "valid_image out \<and> width out = width src \<and> height out = height src"
proof -
  have f: "unat (width src) * unat (height src) < 2 ^ 31"
    using assms(1) by (auto simp add: rotate180_def int_mul_u16_def split: if_splits)
  show ?thesis
    using assms(1) rotate180_valid [OF assms(2) f]
    by (auto simp add: valid_image_def length_rotate_loop)
qed

lemma rot180_twice: "rot180 (rot180 src) = src"
  by (simp add: rot180_def)

text \<open>
  C10. \<^verbatim>\<open>rotate180\<close> returns a buffer of the same dimensions whose pixel \<open>p\<close> is the
  input pixel \<open>width * height - 1 - p\<close>, the three channel bytes of a pixel kept together
  and in order, and rotating twice gives back the original buffer. First conjunct:
  \<^verbatim>\<open>rotate180\<close> of part_000 on a valid buffer, where \<open>c\<close> is the channel; the bound on the
  pixel count is the condition under which its \<^verbatim>\<open>int\<close> product \<^verbatim>\<open>width * height\<close> is
  defined, and every decoded buffer meets it (lemma \<open>TGA_load_valid\<close>). Second conjunct:
  \<^verbatim>\<open>rot180\<close> of project2.cpp, on whole pixels.
\<close>

theorem C10_rotate180:
  "(valid_image src \<and> unat (width src) * unat (height src) < 2 ^ 31
    \<longrightarrow> (\<exists>out. rotate180 src = Inr out
          \<and> width out = width src \<and> height out = height src
          \<and> length (pixels out) = length (pixels src)
          \<and> (\<forall>p < unat (width src) * unat (height src). \<forall>c < 3.
                pixels out ! (p * 3 + c)
                  = pixels src ! ((unat (width src) * unat (height src) - 1 - p) * 3 + c))
          \<and> rotate180 out = Inr src))
   \<and> (length (px im) = unat (hwidth (h im)) * unat (hheight (h im))
    \<longrightarrow> h (rot180 im) = h im \<and> length (px (rot180 im)) = length (px im)
        \<and> (\<forall>p < unat (hwidth (h im)) * unat (hheight (h im)).
              px (rot180 im) ! p
                = px im ! (unat (hwidth (h im)) * unat (hheight (h im)) - 1 - p))
        \<and> rot180 (rot180 im) = im)"
proof (rule conjI; rule impI)
  assume a: "valid_image src \<and> unat (width src) * unat (height src) < 2 ^ 31"
  let ?n = "unat (width src) * unat (height src)"
  let ?out = "\<lparr>width = width src, height = height src, pixels = rotate_loop ?n (pixels src)\<rparr>"
  have v: "valid_image src" and f: "?n < 2 ^ 31" using a by blast+
  have len: "length (pixels src) = 3 * ?n" using v by (simp add: valid_image_def)
  have r1: "rotate180 src = Inr ?out" using v f by (rule rotate180_valid)
  have vo: "valid_image ?out" by (simp add: valid_image_def length_rotate_loop)
  have fo: "unat (width ?out) * unat (height ?out) < 2 ^ 31" using f by simp
  have "rotate180 ?out = Inr \<lparr>width = width ?out, height = height ?out,
            pixels = rotate_loop (unat (width ?out) * unat (height ?out)) (pixels ?out)\<rparr>"
    using vo fo by (rule rotate180_valid)
  then have r2: "rotate180 ?out = Inr src"
    by (simp add: rotate_loop_twice [OF len])
  have idx: "\<forall>p < ?n. \<forall>c < 3. pixels ?out ! (p * 3 + c) = pixels src ! ((?n - 1 - p) * 3 + c)"
    by (simp add: rotate_loop_nth)
  show "\<exists>out. rotate180 src = Inr out
          \<and> width out = width src \<and> height out = height src
          \<and> length (pixels out) = length (pixels src)
          \<and> (\<forall>p < ?n. \<forall>c < 3. pixels out ! (p * 3 + c) = pixels src ! ((?n - 1 - p) * 3 + c))
          \<and> rotate180 out = Inr src"
  proof (intro exI conjI)
    show "rotate180 src = Inr ?out" by (rule r1)
    show "width ?out = width src" by simp
    show "height ?out = height src" by simp
    show "length (pixels ?out) = length (pixels src)" by (simp add: length_rotate_loop len)
    show "\<forall>p < ?n. \<forall>c < 3. pixels ?out ! (p * 3 + c) = pixels src ! ((?n - 1 - p) * 3 + c)"
      by (rule idx)
    show "rotate180 ?out = Inr src" by (rule r2)
  qed
next
  assume a: "length (px im) = unat (hwidth (h im)) * unat (hheight (h im))"
  show "h (rot180 im) = h im \<and> length (px (rot180 im)) = length (px im)
        \<and> (\<forall>p < unat (hwidth (h im)) * unat (hheight (h im)).
              px (rot180 im) ! p
                = px im ! (unat (hwidth (h im)) * unat (hheight (h im)) - 1 - p))
        \<and> rot180 (rot180 im) = im"
    using a by (simp add: rot180_def rev_nth)
qed

theorem C10_rotate180_witness:
  "valid_image \<lparr>width = 2, height = 1, pixels = [1, 2, 3, 4, 5, 6]\<rparr>
   \<and> rotate180 \<lparr>width = 2, height = 1, pixels = [1, 2, 3, 4, 5, 6]\<rparr>
       = Inr \<lparr>width = 2, height = 1, pixels = [4, 5, 6, 1, 2, 3]\<rparr>
   \<and> rotate180 \<lparr>width = 2, height = 1, pixels = [4, 5, 6, 1, 2, 3]\<rparr>
       = Inr \<lparr>width = 2, height = 1, pixels = [1, 2, 3, 4, 5, 6]\<rparr>
   \<and> rot180 \<lparr>h = mkHeader 2 1 0, px = [\<lparr>b = 1, g = 2, r = 3\<rparr>, \<lparr>b = 4, g = 5, r = 6\<rparr>]\<rparr>
       = \<lparr>h = mkHeader 2 1 0, px = [\<lparr>b = 4, g = 5, r = 6\<rparr>, \<lparr>b = 1, g = 2, r = 3\<rparr>]\<rparr>"
  using C10_rotate180
    [of "\<lparr>width = 2, height = 1, pixels = [1, 2, 3, 4, 5, 6]\<rparr>"
        "\<lparr>h = mkHeader 2 1 0, px = [\<lparr>b = 1, g = 2, r = 3\<rparr>, \<lparr>b = 4, g = 5, r = 6\<rparr>]\<rparr>"]
  by (simp add: valid_image_def rotate180_def int_mul_u16_def rotate_loop_def upt_rec rot180_def)

section \<open>Combining three channels\<close>

text \<open>
  \<^verbatim>\<open>combineRGB\<close> of part_000 (lines 234-246) reads the first channel slot of each of its
  three sources; \<^verbatim>\<open>combineRGB\<close> of project2.cpp (lines 156-168) reads the red slot of
  \<open>r\<close>, the green slot of \<open>g\<close> and the blue slot of \<open>b\<close>.
\<close>

lemma combineRGB_first_slot:
  assumes d: "width ri = width gi" "width ri = width bi" "height ri = height gi" "height ri = height bi"
    and v: "valid_image ri" "valid_image gi" "valid_image bi"
    and f: "unat (width ri) * unat (height ri) < 2 ^ 31"
  shows "\<exists>out. combineRGB ri gi bi = Inr out \<and> width out = width ri \<and> height out = height ri
      \<and> length (pixels out) = length (pixels ri)
      \<and> (\<forall>k < unat (width ri) * unat (height ri).
            pixels out ! (k * 3 + 0) = pixels bi ! (k * 3)
          \<and> pixels out ! (k * 3 + 1) = pixels gi ! (k * 3)
          \<and> pixels out ! (k * 3 + 2) = pixels ri ! (k * 3))"
proof -
  let ?n = "unat (width ri) * unat (height ri)"
  let ?f = "\<lambda>k. [pixels bi ! (3 * k), pixels gi ! (3 * k), pixels ri ! (3 * k)]"
  have lr: "length (pixels ri) = 3 * ?n" using v(1) by (simp add: valid_image_def)
  have lg: "length (pixels gi) = 3 * ?n" using v(2) d by (simp add: valid_image_def)
  have lb: "length (pixels bi) = 3 * ?n" using v(3) d by (simp add: valid_image_def)
  have nd: "\<not> (width ri \<noteq> width gi \<or> width ri \<noteq> width bi
         \<or> height ri \<noteq> height gi \<or> height ri \<noteq> height bi)"
    using d by simp
  have nb: "\<not> (0 < ?n \<and> (length (pixels ri) \<le> 3 * (?n - 1) \<or> length (pixels gi) \<le> 3 * (?n - 1)
                       \<or> length (pixels bi) \<le> 3 * (?n - 1)))"
  proof -
    have "0 < ?n \<Longrightarrow> \<not> 3 * ?n \<le> 3 * (?n - 1)" by linarith
    then show ?thesis unfolding lr lg lb by blast
  qed
  have c: "combineRGB ri gi bi
     = Inr \<lparr>width = width ri, height = height ri, pixels = concat (map ?f [0..<?n])\<rparr>"
    unfolding combineRGB_def
    by (simp only: nd if_False int_mul_u16_Some [OF f] option.case nb)
  have len: "length (concat (map ?f [0..<?n])) = 3 * ?n"
    by (rule length_concat_triples) simp
  have idx: "\<And>k c. k < ?n \<Longrightarrow> c < 3 \<Longrightarrow> concat (map ?f [0..<?n]) ! (k * 3 + c) = ?f k ! c"
    by (rule concat_triples_nth) simp_all
  show ?thesis
    unfolding c using len lr idx [of _ 0] idx [of _ 1] idx [of _ 2]
    by (simp add: mult.commute)
qed

lemma p2_combineRGB_channels:
  assumes "hwidth (h ri) = hwidth (h gi)" "hwidth (h ri) = hwidth (h bi)"
    "hheight (h ri) = hheight (h gi)" "hheight (h ri) = hheight (h bi)"
    and "length (px gi) = length (px ri)" "length (px bi) = length (px ri)"
  shows "\<exists>out. p2_combineRGB ri gi bi = Inr out \<and> h out = h ri \<and> length (px out) = length (px ri)
      \<and> (\<forall>i < length (px ri). r (px out ! i) = r (px ri ! i)
            \<and> g (px out ! i) = g (px gi ! i) \<and> b (px out ! i) = b (px bi ! i))"
  using assms by (simp add: p2_combineRGB_def)

text \<open>
  C9. The buffer returned by \<^verbatim>\<open>combineRGB\<close> takes the red sample of each pixel from the red
  slot of \<open>r\<close>, the green sample from the green slot of \<open>g\<close> and the blue sample from the
  blue slot of \<open>b\<close>. \<^verbatim>\<open>combineRGB\<close> of part_000 (lines 240-244) reads slot 0, the blue
  slot, of all three: for the pixels (b,g,r) = (10,20,30), (40,50,60), (70,80,90) it
  returns (70,40,10), where the claim and \<^verbatim>\<open>combineRGB\<close> of project2.cpp give (70,50,30).
\<close>

theorem C9_combineRGB_reads_first_slot:
  "combineRGB \<lparr>width = 1, height = 1, pixels = [10, 20, 30]\<rparr>
      \<lparr>width = 1, height = 1, pixels = [40, 50, 60]\<rparr>
      \<lparr>width = 1, height = 1, pixels = [70, 80, 90]\<rparr>
     = Inr \<lparr>width = 1, height = 1, pixels = [70, 40, 10]\<rparr>
   \<and> p2_combineRGB \<lparr>h = mkHeader 1 1 0, px = [\<lparr>b = 10, g = 20, r = 30\<rparr>]\<rparr>
      \<lparr>h = mkHeader 1 1 0, px = [\<lparr>b = 40, g = 50, r = 60\<rparr>]\<rparr>
      \<lparr>h = mkHeader 1 1 0, px = [\<lparr>b = 70, g = 80, r = 90\<rparr>]\<rparr>
     = Inr \<lparr>h = mkHeader 1 1 0, px = [\<lparr>b = 70, g = 50, r = 30\<rparr>]\<rparr>"
  by (simp add: combineRGB_def int_mul_u16_def p2_combineRGB_def)

theorem C9_combineRGB_reads_first_slot_witness:
  "combineRGB \<lparr>width = 1, height = 1, pixels = [10, 20, 30]\<rparr>
      \<lparr>width = 1, height = 1, pixels = [40, 50, 60]\<rparr>
      \<lparr>width = 1, height = 1, pixels = [70, 80, 90]\<rparr>
     = Inr \<lparr>width = 1, height = 1, pixels = [70, 40, 10]\<rparr>"
  using C9_combineRGB_reads_first_slot by simp

end
